theory Spec2Isabelle
  imports Complex_Main "HOL-Library.Char_ord" "HOL-Library.List_Lexorder"
begin

section \<open>Seasons and the overlap classifier (utils/helpers.py)\<close>

text \<open>
  \<^verbatim>\<open>Season\<close> is a dataclass with an integer \<^verbatim>\<open>start_year\<close> and an optional
  \<^verbatim>\<open>end_year\<close> (\<^verbatim>\<open>None\<close> means current/ongoing). Python integers are unbounded.
\<close>

record Season =
  start_year :: int
  end_year :: "int option"

definition is_current :: "Season \<Rightarrow> bool" where
  "is_current s = (end_year s = None)"

text \<open>
  \<^verbatim>\<open>OverlapAnalyzer.analyze_overlap\<close>, branch by branch in the order of the source.
  The comparison \<^verbatim>\<open>new_season.end_year == existing_season.end_year\<close> is equality of
  optional integers; \<^verbatim>\<open>x is not None and a == x\<close> is \<open>x = Some a\<close>.
\<close>

definition analyze_overlap :: "Season \<Rightarrow> Season \<Rightarrow> string" where
  "analyze_overlap new_season existing_season =
    (if start_year new_season = start_year existing_season
        \<and> end_year new_season = end_year existing_season
     then ''EXACT_MATCH''
     else if end_year existing_season \<noteq> None
        \<and> Some (start_year new_season) = end_year existing_season
     then ''NO_OVERLAP''
     else if end_year new_season \<noteq> None
        \<and> Some (start_year existing_season) = end_year new_season
     then ''NO_OVERLAP''
     else if end_year existing_season \<noteq> None
        \<and> start_year new_season > the (end_year existing_season)
     then ''NO_OVERLAP''
     else if end_year new_season \<noteq> None
        \<and> start_year existing_season > the (end_year new_season)
     then ''NO_OVERLAP''
     else if is_current existing_season \<and> is_current new_season
        \<and> start_year new_season = start_year existing_season + 1
     then ''ADJACENT_CURRENT_SEASONS''
     else if is_current existing_season \<and> \<not> is_current new_season
        \<and> start_year new_season = start_year existing_season + 1
     then ''ADJACENT_CURRENT_TO_FINITE''
     else
       (let new_end = (case end_year new_season of Some e \<Rightarrow> e | None \<Rightarrow> 9999);
            existing_end = (case end_year existing_season of Some e \<Rightarrow> e | None \<Rightarrow> 9999)
        in if start_year new_season \<le> start_year existing_season \<and> new_end \<ge> existing_end
           then ''NEW_CONTAINS_EXISTING''
           else if start_year existing_season \<le> start_year new_season \<and> existing_end \<ge> new_end
           then ''EXISTING_CONTAINS_NEW''
           else if start_year new_season < start_year existing_season
              \<and> new_end \<ge> start_year existing_season
           then ''OVERLAP_START''
           else if start_year new_season \<le> existing_end
              \<and> start_year new_season > start_year existing_season
           then ''OVERLAP_END''
           else ''NO_OVERLAP''))"

text \<open>
  Calendar dates as (year, month, day), compared chronologically. The academic-year range
  of a finite season runs from 1 September of \<open>start_year\<close> to 31 August of \<open>end_year\<close>.
\<close>

type_synonym date = "int \<times> nat \<times> nat"

fun date_le :: "date \<Rightarrow> date \<Rightarrow> bool" where
  "date_le (y1, m1, d1) (y2, m2, d2) =
     (y1 < y2 \<or> (y1 = y2 \<and> (m1 < m2 \<or> (m1 = m2 \<and> d1 \<le> d2))))"

definition season_dates :: "int \<Rightarrow> int \<Rightarrow> date set" where
  "season_dates sy ey = {d. date_le (sy, 9, 1) d \<and> date_le d (ey, 8, 31)}"

definition overlap_classes :: "string set" where
  "overlap_classes = {''EXACT_MATCH'', ''NEW_CONTAINS_EXISTING'', ''EXISTING_CONTAINS_NEW'',
     ''OVERLAP_START'', ''OVERLAP_END''}"

section \<open>Python strings and integer conversion\<close>

text \<open>
  A Python \<^verbatim>\<open>str\<close> is a sequence of code points. The model is a \<open>char list\<close> whose
  characters are the code points U+0000 to U+00FF (\<open>of_char\<close> gives the code point), so
  it covers every ASCII and Latin-1 input. The character classes below are CPython's on
  that range:
  \<^item> \<^verbatim>\<open>str.isspace\<close> (used by \<^verbatim>\<open>str.strip()\<close>): U+0009..U+000D, U+001C..U+0020,
    U+0085, U+00A0;
  \<^item> \<^verbatim>\<open>str.isdigit\<close>: the decimal digits \<^verbatim>\<open>0\<close>..\<^verbatim>\<open>9\<close> and the superscript digits
    U+00B2, U+00B3, U+00B9 (digits that are not decimal digits);
  \<^item> the C-level \<^verbatim>\<open>Py_ISSPACE\<close> used inside \<^verbatim>\<open>int()\<close>: U+0009..U+000D and U+0020.
\<close>

text \<open>
  The exceptions of the model: the Python built-ins that the modelled code can raise, and
  the two \<^verbatim>\<open>sqlite3\<close> errors (\<^verbatim>\<open>IntegrityError\<close> for a violated constraint,
  \<^verbatim>\<open>OperationalError\<close> for a statement the database cannot run).
\<close>

datatype py_error = ValueError | IndexError | OverflowError | IntegrityError | OperationalError

definition ebind :: "py_error + 'a \<Rightarrow> ('a \<Rightarrow> py_error + 'b) \<Rightarrow> py_error + 'b" where
  "ebind r f = (case r of Inl e \<Rightarrow> Inl e | Inr v \<Rightarrow> f v)"

definition code_point :: "char \<Rightarrow> nat" where
  "code_point c = of_char c"

definition py_isspace :: "char \<Rightarrow> bool" where
  "py_isspace c = (let n = code_point c
     in (9 \<le> n \<and> n \<le> 13) \<or> (28 \<le> n \<and> n \<le> 32) \<or> n = 133 \<or> n = 160)"

definition is_decimal :: "char \<Rightarrow> bool" where
  "is_decimal c = (48 \<le> code_point c \<and> code_point c \<le> 57)"

definition py_isdigit :: "char \<Rightarrow> bool" where
  "py_isdigit c = (is_decimal c \<or> code_point c = 178 \<or> code_point c = 179 \<or> code_point c = 185)"

definition c_isspace :: "char \<Rightarrow> bool" where
  "c_isspace c = ((9 \<le> code_point c \<and> code_point c \<le> 13) \<or> code_point c = 32)"

text \<open>\<^verbatim>\<open>text.strip()\<close>: whitespace removed at both ends.\<close>

definition strip :: "string \<Rightarrow> string" where
  "strip s = rev (dropWhile py_isspace (rev (dropWhile py_isspace s)))"

text \<open>\<^verbatim>\<open>s.split(sep)\<close> for a one-character separator: always at least one field.\<close>

fun split_on :: "char \<Rightarrow> string \<Rightarrow> string list" where
  "split_on sep [] = [[]]"
| "split_on sep (c # cs) =
     (if c = sep then [] # split_on sep cs
      else (case split_on sep cs of p # ps \<Rightarrow> (c # p) # ps | [] \<Rightarrow> [[c]]))"

text \<open>\<^verbatim>\<open>s.split(sep, 1)\<close>: split at the first separator only.\<close>

definition split1 :: "char \<Rightarrow> string \<Rightarrow> string list" where
  "split1 sep s = (if sep \<in> set s
     then [takeWhile (\<lambda>c. c \<noteq> sep) s, tl (dropWhile (\<lambda>c. c \<noteq> sep) s)] else [s])"

text \<open>\<^verbatim>\<open>a, b = xs\<close>: unpacking raises \<^verbatim>\<open>ValueError\<close> unless there are exactly two values.\<close>

definition unpack2 :: "'a list \<Rightarrow> py_error + ('a \<times> 'a)" where
  "unpack2 xs = (case xs of [a, b] \<Rightarrow> Inr (a, b) | _ \<Rightarrow> Inl ValueError)"

text \<open>\<^verbatim>\<open>s.ljust(n, '0')\<close>, the slice \<^verbatim>\<open>s[i:j]\<close> for \<open>0 \<le> i \<le> j\<close>, and \<^verbatim>\<open>s[i]\<close>.\<close>

definition ljust :: "nat \<Rightarrow> char \<Rightarrow> string \<Rightarrow> string" where
  "ljust n fill s = s @ replicate (n - length s) fill"

definition slice :: "nat \<Rightarrow> nat \<Rightarrow> 'a list \<Rightarrow> 'a list" where
  "slice i j s = take (j - i) (drop i s)"

definition py_index :: "'a list \<Rightarrow> nat \<Rightarrow> py_error + 'a" where
  "py_index s i = (if i < length s then Inr (s ! i) else Inl IndexError)"

text \<open>
  \<^verbatim>\<open>int(s)\<close> in base 10, following CPython: every character from U+007F on is first
  replaced by a space if it is whitespace and by \<^verbatim>\<open>?\<close> otherwise (the range has no
  decimal digit); then leading \<^verbatim>\<open>Py_ISSPACE\<close> characters are skipped, one optional sign
  is read, then decimal digits with single underscores between them, then trailing
  whitespace; anything else, and an empty digit sequence, is a \<^verbatim>\<open>ValueError\<close>.
  The interpreter's configurable limit on the number of digits is not modelled.
\<close>

definition int_transform :: "char \<Rightarrow> char" where
  "int_transform c = (if code_point c < 127 then c
     else if py_isspace c then CHR '' '' else CHR ''?'')"

definition digit_val :: "char \<Rightarrow> int" where
  "digit_val c = int (code_point c) - 48"

definition digits_value :: "string \<Rightarrow> int" where
  "digits_value ds = foldl (\<lambda>a c. 10 * a + digit_val c) 0 ds"

fun double_underscore :: "string \<Rightarrow> bool" where
  "double_underscore (a # b # cs) =
     ((a = CHR ''_'' \<and> b = CHR ''_'') \<or> double_underscore (b # cs))"
| "double_underscore _ = False"

definition int_body_char :: "char \<Rightarrow> bool" where
  "int_body_char c = (is_decimal c \<or> c = CHR ''_'')"

definition py_int :: "string \<Rightarrow> py_error + int" where
  "py_int s =
    (let t = dropWhile c_isspace (map int_transform s);
         neg = (case t of c # _ \<Rightarrow> c = CHR ''-'' | [] \<Rightarrow> False);
         t2 = (case t of c # cs \<Rightarrow> (if c = CHR ''+'' \<or> c = CHR ''-'' then cs else t) | [] \<Rightarrow> t);
         body = takeWhile int_body_char t2;
         rest = dropWhile int_body_char t2
     in if body = [] \<or> hd body = CHR ''_'' \<or> last body = CHR ''_'' \<or> double_underscore body
           \<or> dropWhile c_isspace rest \<noteq> []
        then Inl ValueError
        else Inr ((if neg then - 1 else 1) * digits_value (filter is_decimal body)))"

section \<open>The time-string parser (utils/helpers.py)\<close>

text \<open>
  The formatted path of \<^verbatim>\<open>parse_time_input\<close>: the body of the \<^verbatim>\<open>try\<close> block, entered
  when the text has a colon or a period. Its result is \<open>Inl\<close> where the body raises.
\<close>

definition ms_field :: "string \<Rightarrow> py_error + int" where
  "ms_field ms_str = py_int (slice 0 3 (ljust 3 (CHR ''0'') ms_str))"

definition int_or_zero :: "string \<Rightarrow> py_error + int" where
  "int_or_zero s = (if s \<noteq> [] then py_int s else Inr 0)"

definition check_seconds :: "int \<times> int \<times> int \<Rightarrow> py_error + (int \<times> int \<times> int)" where
  "check_seconds r = (case r of (minutes, seconds, milliseconds) \<Rightarrow>
     if seconds \<ge> 60 then Inl ValueError else Inr (minutes, seconds, milliseconds))"

definition sec_and_ms :: "string \<Rightarrow> py_error + (int \<times> int)" where
  "sec_and_ms s =
     ebind (unpack2 (split1 (CHR ''.'') s)) (\<lambda>(sec_str, ms_str).
     ebind (int_or_zero sec_str) (\<lambda>seconds.
     ebind (ms_field ms_str) (\<lambda>milliseconds. Inr (seconds, milliseconds))))"

definition formatted_parse :: "string \<Rightarrow> py_error + (int \<times> int \<times> int)" where
  "formatted_parse text =
    (if CHR '':'' \<in> set text then
       (case split_on (CHR '':'') text of
          [] \<Rightarrow> Inl ValueError
        | time_part # rest \<Rightarrow>
            ebind (int_or_zero time_part) (\<lambda>minutes.
            ebind (case rest of
                     [] \<Rightarrow> Inr (0, 0)
                   | sec_part # _ \<Rightarrow>
                       if CHR ''.'' \<in> set sec_part then sec_and_ms sec_part
                       else ebind (int_or_zero sec_part) (\<lambda>seconds. Inr (seconds, 0)))
              (\<lambda>(seconds, milliseconds). check_seconds (minutes, seconds, milliseconds))))
     else
       ebind (sec_and_ms text) (\<lambda>(seconds, milliseconds).
         check_seconds (0, seconds, milliseconds)))"

text \<open>The digit path: the code after the \<^verbatim>\<open>try\<close> block.\<close>

definition digit_parse :: "string \<Rightarrow> py_error + (int \<times> int \<times> int)" where
  "digit_parse text =
    (let digits = filter py_isdigit text
     in if digits = [] then Inl ValueError
        else if length digits \<le> 6 then
          (let digits = ljust 6 (CHR ''0'') digits
           in ebind (py_index digits 0) (\<lambda>d0.
              ebind (py_int [d0]) (\<lambda>minutes.
              ebind (py_int (slice 1 3 digits)) (\<lambda>seconds.
              ebind (py_int (slice 3 6 digits)) (\<lambda>milliseconds.
              check_seconds (minutes, seconds, milliseconds))))))
        else
          (let extra_digits = take (length digits - 6) digits;
               core_digits = drop (length digits - 6) digits
           in ebind (py_int extra_digits) (\<lambda>tens_of_minutes.
              ebind (py_index core_digits 0) (\<lambda>d0.
              ebind (py_int [d0]) (\<lambda>single_minutes.
              ebind (py_int (slice 1 3 core_digits)) (\<lambda>seconds.
              ebind (py_int (slice 3 6 core_digits)) (\<lambda>milliseconds.
              check_seconds (tens_of_minutes * 10 + single_minutes, seconds, milliseconds))))))))"

text \<open>
  \<^verbatim>\<open>parse_time_input\<close>: the \<^verbatim>\<open>except (ValueError, IndexError)\<close> clause sends both
  kinds of failure of the formatted path on to the digit path; any other exception
  would propagate.
\<close>

definition parse_time_input :: "string \<Rightarrow> py_error + (int \<times> int \<times> int)" where
  "parse_time_input text0 =
    (let text = strip text0
     in if CHR '':'' \<in> set text \<or> CHR ''.'' \<in> set text then
          (case formatted_parse text of
             Inr r \<Rightarrow> Inr r
           | Inl e \<Rightarrow> if e = ValueError \<or> e = IndexError then digit_parse text else Inl e)
        else digit_parse text)"

section \<open>Normalised time strings (widgets/time_entries.py)\<close>

text \<open>
  \<^verbatim>\<open>str(n)\<close> for a natural number: its decimal digits, most significant first.
\<close>

definition digit_char :: "nat \<Rightarrow> char" where
  "digit_char d = ''0123456789'' ! d"

function str_nat :: "nat \<Rightarrow> string" where
  "str_nat n = (if n < 10 then [digit_char n] else str_nat (n div 10) @ [digit_char (n mod 10)])"
  by pat_completeness auto
termination
  by (relation "measure id") auto

text \<open>
  The format specification \<^verbatim>\<open>0wd\<close> of an f-string (\<^verbatim>\<open>{minutes:02d}\<close>): the decimal
  digits padded with zeros on the left to the width \<open>w\<close>, the sign of a negative number
  counting towards the width.
\<close>

definition format_d :: "nat \<Rightarrow> int \<Rightarrow> string" where
  "format_d w i =
     (if i < 0
      then (let ds = str_nat (nat (- i)) in CHR ''-'' # replicate (w - 1 - length ds) (CHR ''0'') @ ds)
      else (let ds = str_nat (nat i) in replicate (w - length ds) (CHR ''0'') @ ds))"

text \<open>\<^verbatim>\<open>f"{minutes:02d}:{seconds:02d}.{milliseconds:03d}"\<close>\<close>

definition normalized_time :: "int \<Rightarrow> int \<Rightarrow> int \<Rightarrow> string" where
  "normalized_time minutes seconds milliseconds =
     format_d 2 minutes @ '':'' @ format_d 2 seconds @ ''.'' @ format_d 3 milliseconds"

text \<open>
  \<^verbatim>\<open>TimeEntry._normalize\<close> as a function on the text of the entry field: an empty
  (stripped) text is left alone; a text that parses is replaced by its normalised form;
  when the parser raises, an error box is shown and the text stays as it is.
\<close>

definition TimeEntry_normalize :: "string \<Rightarrow> string" where
  "TimeEntry_normalize field =
     (let text = strip field
      in if text = [] then field
         else (case parse_time_input text of
                 Inr (minutes, seconds, milliseconds) \<Rightarrow> normalized_time minutes seconds milliseconds
               | Inl e \<Rightarrow> field))"

section \<open>Seconds of a time string (utils/helpers.py)\<close>

text \<open>
  \<^verbatim>\<open>time_to_seconds\<close> computes \<^verbatim>\<open>minutes * 60 + seconds + milliseconds / 1000.0\<close>
  inside \<^verbatim>\<open>try\<close> with \<^verbatim>\<open>except ValueError: return 0.0\<close>. The sum
  \<^verbatim>\<open>minutes * 60 + seconds\<close> is integer arithmetic; adding the float converts it to a
  double, and so does dividing \<^verbatim>\<open>milliseconds\<close> by \<^verbatim>\<open>1000.0\<close>. Converting an integer
  to a double raises \<^verbatim>\<open>OverflowError\<close> when the integer rounds beyond the largest
  double, that is from \<open>2^1024 - 2^970\<close> on in absolute value. A double is modelled by
  the real number it approximates: the rounding of the conversion, of the division and
  of the sum is not modelled, the exceptions are.
\<close>

definition float_overflow_bound :: int where
  "float_overflow_bound = 2 ^ 1024 - 2 ^ 970"

definition float_of_int :: "int \<Rightarrow> py_error + real" where
  "float_of_int n = (if \<bar>n\<bar> \<ge> float_overflow_bound then Inl OverflowError else Inr (real_of_int n))"

definition time_to_seconds :: "string \<Rightarrow> py_error + real" where
  "time_to_seconds time_str =
     (case parse_time_input time_str of
        Inl e \<Rightarrow> (if e = ValueError then Inr 0 else Inl e)
      | Inr (minutes, seconds, milliseconds) \<Rightarrow>
          ebind (float_of_int milliseconds) (\<lambda>ms.
          ebind (float_of_int (minutes * 60 + seconds)) (\<lambda>whole.
          Inr (whole + ms / 1000))))"

section \<open>The database (database_initializer.py) and its connection\<close>

text \<open>
  One record per table of the schema, with the columns the modelled operations read or
  write (the \<^verbatim>\<open>created_at\<close> and \<^verbatim>\<open>updated_at\<close> timestamps are left out). A nullable
  column is an \<open>option\<close>. A table is the list of its rows in rowid order.
\<close>

text \<open>
  The two date columns of \<^verbatim>\<open>school_participations\<close> are written by several statements;
  they hold whatever value is stored in them: \<^verbatim>\<open>NULL\<close>, an integer or a text.
\<close>

datatype sql_value = Null | Integer int | Text string

record school_row =
  school_id :: int
  school_name :: string
  short_name :: "string option"
  acronym :: "string option"
  crr_name :: string
  color :: "string option"

record team_row =
  team_id :: int
  team_school_id :: int
  gender :: string
  weight :: string

record affiliation_row =
  affiliation_id :: int
  affiliation_team_id :: int
  conference :: string
  affiliation_start_date :: string
  affiliation_end_date :: "string option"

record participation_row =
  participation_id :: int
  participation_school_id :: int
  start_date :: sql_value
  end_date :: sql_value
  openweight_women :: bool
  heavyweight_men :: bool
  lightweight_men :: bool
  lightweight_women :: bool

record regatta_row =
  regatta_id :: int
  regatta_name :: string
  location :: "string option"
  regatta_start_date :: "string option"
  regatta_end_date :: "string option"

record event_row =
  event_id :: int
  event_regatta_id :: int
  boat_type :: string
  event_boat_class :: string
  event_gender :: string
  event_weight :: string
  round_name :: string
  scheduled_at :: "string option"

record entry_row =
  entry_id :: int
  entry_event_id :: int
  entry_team_id :: int
  entry_boat_class :: "string option"
  conference_at_time :: "string option"
  entry_seed :: "int option"
  entry_notes :: "string option"

record result_row =
  result_id :: int
  result_entry_id :: int
  lane :: "int option"
  position :: "int option"
  elapsed_sec :: "real option"
  margin_sec :: "real option"

text \<open>
  \<open>sqlite_sequence\<close> holds, per table name, the largest rowid that
  \<^verbatim>\<open>AUTOINCREMENT\<close> has handed out.
\<close>

record database =
  schools :: "school_row list"
  teams :: "team_row list"
  conference_affiliations :: "affiliation_row list"
  school_participations :: "participation_row list"
  regattas :: "regatta_row list"
  events :: "event_row list"
  entries :: "entry_row list"
  results :: "result_row list"
  sqlite_sequence :: "string \<Rightarrow> int"

text \<open>
  The \<^verbatim>\<open>sqlite3\<close> connection: the committed database, the database as this connection
  sees it (with the changes of an open transaction), and whether a transaction is open.
\<close>

record connection =
  committed :: database
  current :: database
  in_transaction :: bool

text \<open>
  The manager's school cache holds \<^verbatim>\<open>School\<close> objects; the two caches are Python
  dictionaries.
\<close>

record School =
  School_school_id :: int
  School_name :: string
  School_short_name :: string
  School_acronym :: string
  School_crr_name :: string
  School_color :: string

record DatabaseManager =
  conn :: connection
  school_cache :: "int \<rightharpoonup> School"
  crr_name_to_id_cache :: "string \<rightharpoonup> int"

subsection \<open>Statements, exceptions and transactions\<close>

text \<open>
  An operation of the manager is a function from the manager's state to an outcome (\<open>Inl\<close>
  the exception raised, \<open>Inr\<close> the value returned) and the state it leaves.
\<close>

type_synonym 'a action = "DatabaseManager \<Rightarrow> (py_error + 'a) \<times> DatabaseManager"

definition return :: "'a \<Rightarrow> 'a action" where
  "return v m = (Inr v, m)"

definition raise :: "py_error \<Rightarrow> 'a action" where
  "raise e m = (Inl e, m)"

definition sbind :: "'a action \<Rightarrow> ('a \<Rightarrow> 'b action) \<Rightarrow> 'b action" where
  "sbind f g m = (case f m of (Inl e, m') \<Rightarrow> (Inl e, m') | (Inr v, m') \<Rightarrow> g v m')"

text \<open>\<^verbatim>\<open>try: body  except Exception as e: handler(e)\<close>\<close>

definition try_except :: "'a action \<Rightarrow> (py_error \<Rightarrow> 'a action) \<Rightarrow> 'a action" where
  "try_except body handler m =
     (case body m of (Inl e, m') \<Rightarrow> handler e m' | (Inr v, m') \<Rightarrow> (Inr v, m'))"

text \<open>
  What the environment does to the SQL steps of one call: \<open>faults k = Some e\<close> makes the
  \<open>k\<close>-th step (counted from 0, the commit included) raise \<open>e\<close> without effect, for
  instance a locked database or a full disk.
\<close>

type_synonym faults = "nat \<Rightarrow> py_error option"

definition no_faults :: faults where
  "no_faults = (\<lambda>k. None)"

text \<open>
  \<^verbatim>\<open>cursor.execute\<close> of an \<^verbatim>\<open>INSERT\<close>, \<^verbatim>\<open>UPDATE\<close> or \<^verbatim>\<open>DELETE\<close>: the module
  opens a transaction first when none is open; the statement then either fails as a
  whole (an imposed fault, or a violated constraint) or changes the current database
  and yields a value (the row count or the new rowid).
\<close>

definition execute ::
  "py_error option \<Rightarrow> (database \<Rightarrow> py_error + (database \<times> 'a)) \<Rightarrow> 'a action" where
  "execute fault stmt m =
     (let c = (conn m)\<lparr>in_transaction := True\<rparr>
      in case fault of
           Some e \<Rightarrow> (Inl e, m\<lparr>conn := c\<rparr>)
         | None \<Rightarrow>
            (case stmt (current c) of
               Inl e \<Rightarrow> (Inl e, m\<lparr>conn := c\<rparr>)
             | Inr (db, v) \<Rightarrow> (Inr v, m\<lparr>conn := c\<lparr>current := db\<rparr>\<rparr>)))"

text \<open>\<^verbatim>\<open>cursor.execute("BEGIN TRANSACTION")\<close> fails inside an open transaction.\<close>

definition begin_transaction :: "py_error option \<Rightarrow> unit action" where
  "begin_transaction fault m =
     (case fault of
        Some e \<Rightarrow> (Inl e, m)
      | None \<Rightarrow>
          if in_transaction (conn m) then (Inl OperationalError, m)
          else (Inr (), m\<lparr>conn := (conn m)\<lparr>in_transaction := True\<rparr>\<rparr>))"

text \<open>\<^verbatim>\<open>conn.commit()\<close> and \<^verbatim>\<open>conn.rollback()\<close>; both do nothing without a transaction.\<close>

definition commit :: "py_error option \<Rightarrow> unit action" where
  "commit fault m =
     (case fault of
        Some e \<Rightarrow> (Inl e, m)
      | None \<Rightarrow>
          (Inr (), if in_transaction (conn m)
                   then m\<lparr>conn := (conn m)\<lparr>committed := current (conn m), in_transaction := False\<rparr>\<rparr>
                   else m))"

definition rollback :: "unit action" where
  "rollback m =
     (Inr (), if in_transaction (conn m)
              then m\<lparr>conn := (conn m)\<lparr>current := committed (conn m), in_transaction := False\<rparr>\<rparr>
              else m)"

subsection \<open>The \<^verbatim>\<open>DELETE\<close> statements with their cascades\<close>

text \<open>
  The connection runs with \<^verbatim>\<open>PRAGMA foreign_keys = ON\<close> and every foreign key is
  declared \<^verbatim>\<open>ON DELETE CASCADE\<close>: deleting a row deletes the rows that reference it.
  The row count of a statement counts the rows it names, not the cascaded ones.
\<close>

definition delete_results :: "(result_row \<Rightarrow> bool) \<Rightarrow> database \<Rightarrow> database \<times> nat" where
  "delete_results P db =
     (db\<lparr>results := filter (\<lambda>r. \<not> P r) (results db)\<rparr>, length (filter P (results db)))"

definition delete_entries :: "(entry_row \<Rightarrow> bool) \<Rightarrow> database \<Rightarrow> database \<times> nat" where
  "delete_entries P db =
     (let gone = filter P (entries db);
          db1 = db\<lparr>entries := filter (\<lambda>e. \<not> P e) (entries db)\<rparr>;
          db2 = fst (delete_results (\<lambda>r. result_entry_id r \<in> set (map entry_id gone)) db1)
      in (db2, length gone))"

definition delete_events :: "(event_row \<Rightarrow> bool) \<Rightarrow> database \<Rightarrow> database \<times> nat" where
  "delete_events P db =
     (let gone = filter P (events db);
          db1 = db\<lparr>events := filter (\<lambda>ev. \<not> P ev) (events db)\<rparr>;
          db2 = fst (delete_entries (\<lambda>e. entry_event_id e \<in> set (map event_id gone)) db1)
      in (db2, length gone))"

definition delete_regattas :: "(regatta_row \<Rightarrow> bool) \<Rightarrow> database \<Rightarrow> database \<times> nat" where
  "delete_regattas P db =
     (let gone = filter P (regattas db);
          db1 = db\<lparr>regattas := filter (\<lambda>r. \<not> P r) (regattas db)\<rparr>;
          db2 = fst (delete_events (\<lambda>ev. event_regatta_id ev \<in> set (map regatta_id gone)) db1)
      in (db2, length gone))"

text \<open>The sub-selects of the two cascading deletes.\<close>

definition event_ids_of_regatta :: "database \<Rightarrow> int \<Rightarrow> int list" where
  "event_ids_of_regatta db rid = map event_id (filter (\<lambda>ev. event_regatta_id ev = rid) (events db))"

definition entry_ids_of_event :: "database \<Rightarrow> int \<Rightarrow> int list" where
  "entry_ids_of_event db eid = map entry_id (filter (\<lambda>e. entry_event_id e = eid) (entries db))"

definition entry_ids_of_regatta :: "database \<Rightarrow> int \<Rightarrow> int list" where
  "entry_ids_of_regatta db rid =
     concat (map (\<lambda>e. map (\<lambda>ev. entry_id e)
                    (filter (\<lambda>ev. entry_event_id e = event_id ev \<and> event_regatta_id ev = rid)
                       (events db)))
               (entries db))"

subsection \<open>\<^verbatim>\<open>DatabaseManager.delete_event\<close> and \<^verbatim>\<open>DatabaseManager.delete_regatta\<close>\<close>

definition delete_event :: "faults \<Rightarrow> int \<Rightarrow> (nat \<times> nat \<times> nat) action" where
  "delete_event faults eid =
     try_except
       (sbind (execute (faults 0) (\<lambda>db. Inr (delete_results
                 (\<lambda>r. result_entry_id r \<in> set (entry_ids_of_event db eid)) db))) (\<lambda>results_deleted.
        sbind (execute (faults 1) (\<lambda>db. Inr (delete_entries
                 (\<lambda>e. entry_event_id e = eid) db))) (\<lambda>entries_deleted.
        sbind (execute (faults 2) (\<lambda>db. Inr (delete_events
                 (\<lambda>ev. event_id ev = eid) db))) (\<lambda>events_deleted.
        sbind (commit (faults 3)) (\<lambda>u.
        return (results_deleted, entries_deleted, events_deleted))))))
       (\<lambda>e. sbind rollback (\<lambda>u. raise e))"

definition delete_regatta :: "faults \<Rightarrow> int \<Rightarrow> (nat \<times> nat \<times> nat \<times> nat) action" where
  "delete_regatta faults rid =
     try_except
       (sbind (execute (faults 0) (\<lambda>db. Inr (delete_results
                 (\<lambda>r. result_entry_id r \<in> set (entry_ids_of_regatta db rid)) db))) (\<lambda>results_deleted.
        sbind (execute (faults 1) (\<lambda>db. Inr (delete_entries
                 (\<lambda>e. entry_event_id e \<in> set (event_ids_of_regatta db rid)) db))) (\<lambda>entries_deleted.
        sbind (execute (faults 2) (\<lambda>db. Inr (delete_events
                 (\<lambda>ev. event_regatta_id ev = rid) db))) (\<lambda>events_deleted.
        sbind (execute (faults 3) (\<lambda>db. Inr (delete_regattas
                 (\<lambda>r. regatta_id r = rid) db))) (\<lambda>regattas_deleted.
        sbind (commit (faults 4)) (\<lambda>u.
        return (results_deleted, entries_deleted, events_deleted, regattas_deleted)))))))
       (\<lambda>e. sbind rollback (\<lambda>u. raise e))"

text \<open>
  The database that the cascade below a regatta leaves, in the words of the
  specification: the results whose entry belongs to an event of the regatta, the entries
  of those events, the events of the regatta and the regatta row are gone; everything
  else is as before. Likewise for a single event.
\<close>

definition regatta_cascade :: "database \<Rightarrow> int \<Rightarrow> database" where
  "regatta_cascade db rid =
     db\<lparr>results := filter (\<lambda>r. result_entry_id r \<notin> set (entry_ids_of_regatta db rid)) (results db),
        entries := filter (\<lambda>e. entry_event_id e \<notin> set (event_ids_of_regatta db rid)) (entries db),
        events := filter (\<lambda>ev. event_regatta_id ev \<noteq> rid) (events db),
        regattas := filter (\<lambda>r. regatta_id r \<noteq> rid) (regattas db)\<rparr>"

definition event_cascade :: "database \<Rightarrow> int \<Rightarrow> database" where
  "event_cascade db eid =
     db\<lparr>results := filter (\<lambda>r. result_entry_id r \<notin> set (entry_ids_of_event db eid)) (results db),
        entries := filter (\<lambda>e. entry_event_id e \<noteq> eid) (entries db),
        events := filter (\<lambda>ev. event_id ev \<noteq> eid) (events db)\<rparr>"

text \<open>
  A small database for the examples: one school with one team, one regatta with one
  event and one entry, no result yet.
\<close>

definition example_database :: database where
  "example_database =
     \<lparr>schools = [\<lparr>school_id = 1, school_name = ''Yale University'', short_name = Some ''Yale'',
                   acronym = None, crr_name = ''Yale'', color = None\<rparr>],
      teams = [\<lparr>team_id = 1, team_school_id = 1, gender = ''M'', weight = ''HW''\<rparr>],
      conference_affiliations = [],
      school_participations = [],
      regattas = [\<lparr>regatta_id = 1, regatta_name = ''Eastern Sprints'', location = None,
                    regatta_start_date = None, regatta_end_date = None\<rparr>],
      events = [\<lparr>event_id = 1, event_regatta_id = 1, boat_type = ''8+'', event_boat_class = ''1V'',
                  event_gender = ''M'', event_weight = ''HW'', round_name = ''Final'',
                  scheduled_at = None\<rparr>],
      entries = [\<lparr>entry_id = 1, entry_event_id = 1, entry_team_id = 1, entry_boat_class = None,
                   conference_at_time = None, entry_seed = None, entry_notes = None\<rparr>],
      results = [],
      sqlite_sequence = (\<lambda>t. 1)\<rparr>"

definition example_manager :: DatabaseManager where
  "example_manager =
     \<lparr>conn = \<lparr>committed = example_database, current = example_database, in_transaction = False\<rparr>,
      school_cache = [1 \<mapsto> \<lparr>School_school_id = 1, School_name = ''Yale University'',
                         School_short_name = ''Yale'', School_acronym = [],
                         School_crr_name = ''Yale'', School_color = []\<rparr>],
      crr_name_to_id_cache = [''Yale'' \<mapsto> 1]\<rparr>"

section \<open>Inserting results (database/manager.py)\<close>

text \<open>
  The rowid that \<^verbatim>\<open>AUTOINCREMENT\<close> gives a new row: one more than the largest rowid
  in the table and in \<open>sqlite_sequence\<close>.
\<close>

definition next_rowid :: "int list \<Rightarrow> int \<Rightarrow> int" where
  "next_rowid ids seq = fold max ids seq + 1"

text \<open>
  \<^verbatim>\<open>INSERT INTO results (entry_id, lane, position, elapsed_sec, margin_sec)\<close>. The table
  has a foreign key on \<^verbatim>\<open>entry_id\<close> and no other constraint: the statement fails with
  \<^verbatim>\<open>IntegrityError\<close> exactly when no entry has that id. It yields the new rowid
  (\<^verbatim>\<open>cursor.lastrowid\<close>).
\<close>

definition insert_result ::
  "int \<Rightarrow> int option \<Rightarrow> int option \<Rightarrow> real option \<Rightarrow> real option
     \<Rightarrow> database \<Rightarrow> py_error + (database \<times> int)" where
  "insert_result eid lane_no place elapsed margin db =
     (if eid \<notin> set (map entry_id (entries db)) then Inl IntegrityError
      else (let rid = next_rowid (map result_id (results db)) (sqlite_sequence db ''results'')
            in Inr (db\<lparr>results := results db @
                        [\<lparr>result_id = rid, result_entry_id = eid, lane = lane_no, position = place,
                          elapsed_sec = elapsed, margin_sec = margin\<rparr>],
                      sqlite_sequence := (sqlite_sequence db)(''results'' := rid)\<rparr>, rid)))"

text \<open>
  \<^verbatim>\<open>DatabaseManager.add_result\<close>: the insert, then the commit, with no handler around
  them.
\<close>

definition add_result ::
  "faults \<Rightarrow> int \<Rightarrow> int option \<Rightarrow> int option \<Rightarrow> real option \<Rightarrow> real option \<Rightarrow> int action" where
  "add_result faults eid lane_no place elapsed margin =
     sbind (execute (faults 0) (insert_result eid lane_no place elapsed margin)) (\<lambda>rowid.
     sbind (commit (faults 1)) (\<lambda>u.
     return rowid))"

section \<open>Season dates and school participation\<close>

text \<open>\<^verbatim>\<open>str(i)\<close> for an integer, as an f-string prints it.\<close>

definition str_int :: "int \<Rightarrow> string" where
  "str_int i = (if i < 0 then CHR ''-'' # str_nat (nat (- i)) else str_nat (nat i))"

text \<open>The properties \<^verbatim>\<open>display_name\<close>, \<^verbatim>\<open>start_date\<close> and \<^verbatim>\<open>end_date\<close> of \<^verbatim>\<open>Season\<close>.\<close>

definition display_name :: "Season \<Rightarrow> string" where
  "display_name s =
     (case end_year s of
        None \<Rightarrow> str_int (start_year s) @ '' - current''
      | Some e \<Rightarrow> str_int (start_year s) @ ''-'' @ str_int e)"

definition season_start_date :: "Season \<Rightarrow> string" where
  "season_start_date s = str_int (start_year s) @ ''-09-01''"

definition season_end_date :: "Season \<Rightarrow> string option" where
  "season_end_date s =
     (case end_year s of None \<Rightarrow> None | Some e \<Rightarrow> Some (str_int e @ ''-08-31''))"

text \<open>
  \<^verbatim>\<open>sub in s\<close> for strings, and \<^verbatim>\<open>s.split(sep)[0]\<close> for a non-empty separator: the
  text before the first occurrence of \<open>sep\<close>.
\<close>

fun py_contains :: "string \<Rightarrow> string \<Rightarrow> bool" where
  "py_contains sub [] = (sub = [])"
| "py_contains sub (c # cs) = (take (length sub) (c # cs) = sub \<or> py_contains sub cs)"

fun before_first :: "string \<Rightarrow> string \<Rightarrow> string" where
  "before_first sep [] = []"
| "before_first sep (c # cs) =
     (if take (length sep) (c # cs) = sep then [] else c # before_first sep cs)"

text \<open>
  The statements of \<^verbatim>\<open>update_school_participation_by_id\<close>. The \<^verbatim>\<open>SELECT\<close> finds the
  first participation row of the school for which \<^verbatim>\<open>SUBSTR(start_date, 1, 4)\<close> is the
  season year (\<^verbatim>\<open>SUBSTR\<close> reads an integer as its decimal text and yields \<^verbatim>\<open>NULL\<close> for
  \<^verbatim>\<open>NULL\<close>). The \<^verbatim>\<open>INSERT\<close> needs the school to exist (foreign key).
\<close>

definition substr4 :: "sql_value \<Rightarrow> string option" where
  "substr4 v = (case v of Null \<Rightarrow> None | Integer i \<Rightarrow> Some (take 4 (str_int i))
     | Text s \<Rightarrow> Some (take 4 s))"

definition select_participation :: "int \<Rightarrow> string \<Rightarrow> database \<Rightarrow> int option" where
  "select_participation sid season_year db =
     map_option participation_id
       (find (\<lambda>row. participation_school_id row = sid \<and> substr4 (start_date row) = Some season_year)
          (school_participations db))"

definition flag_columns :: "string list" where
  "flag_columns = [''openweight_women'', ''heavyweight_men'', ''lightweight_men'', ''lightweight_women'']"

definition set_flag :: "string \<Rightarrow> bool \<Rightarrow> participation_row \<Rightarrow> participation_row" where
  "set_flag team_type v row =
     (if team_type = ''openweight_women'' then row\<lparr>openweight_women := v\<rparr>
      else if team_type = ''heavyweight_men'' then row\<lparr>heavyweight_men := v\<rparr>
      else if team_type = ''lightweight_men'' then row\<lparr>lightweight_men := v\<rparr>
      else if team_type = ''lightweight_women'' then row\<lparr>lightweight_women := v\<rparr>
      else row)"

text \<open>
  \<^verbatim>\<open>UPDATE school_participations SET {team_type} = ? WHERE participation_id = ?\<close>
  splices \<^verbatim>\<open>team_type\<close> into the SQL text. With one of the four flag names, which the
  callers pass, it sets that flag in the rows with the id. With any other text the
  statement that SQLite runs (an update of another column of the table, an error for a
  text that is no column) is a parameter of the model: \<open>other\<close> yields the error, or the
  new rows of the table and the row count.
\<close>

type_synonym spliced_update =
  "string \<Rightarrow> bool \<Rightarrow> int \<Rightarrow> database \<Rightarrow> py_error + (participation_row list \<times> nat)"

definition update_participation_flag ::
  "spliced_update \<Rightarrow> int \<Rightarrow> string \<Rightarrow> bool \<Rightarrow> database \<Rightarrow> py_error + (database \<times> nat)" where
  "update_participation_flag other pid team_type v db =
     (if team_type \<in> set flag_columns
      then Inr (db\<lparr>school_participations :=
                    map (\<lambda>row. if participation_id row = pid then set_flag team_type v row else row)
                      (school_participations db)\<rparr>,
                length (filter (\<lambda>row. participation_id row = pid) (school_participations db)))
      else (case other team_type v pid db of
              Inl e \<Rightarrow> Inl e
            | Inr (rows, n) \<Rightarrow> Inr (db\<lparr>school_participations := rows\<rparr>, n)))"

definition insert_participation ::
  "int \<Rightarrow> string \<Rightarrow> string option \<Rightarrow> string \<Rightarrow> bool \<Rightarrow> database \<Rightarrow> py_error + (database \<times> int)" where
  "insert_participation sid start_d end_d team_type participating db =
     (if sid \<notin> set (map school_id (schools db)) then Inl IntegrityError
      else (let pid = next_rowid (map participation_id (school_participations db))
                        (sqlite_sequence db ''school_participations'')
            in Inr (db\<lparr>school_participations := school_participations db @
                        [\<lparr>participation_id = pid, participation_school_id = sid,
                          start_date = Text start_d,
                          end_date = (case end_d of None \<Rightarrow> Null | Some d \<Rightarrow> Text d),
                          openweight_women = (if team_type = ''openweight_women'' then participating else False),
                          heavyweight_men = (if team_type = ''heavyweight_men'' then participating else False),
                          lightweight_men = (if team_type = ''lightweight_men'' then participating else False),
                          lightweight_women = (if team_type = ''lightweight_women'' then participating else False)\<rparr>],
                      sqlite_sequence := (sqlite_sequence db)(''school_participations'' := pid)\<rparr>, pid)))"

text \<open>A \<^verbatim>\<open>SELECT\<close>: it reads the current database and opens no transaction.\<close>

definition query :: "py_error option \<Rightarrow> (database \<Rightarrow> 'a) \<Rightarrow> 'a action" where
  "query fault q m =
     (case fault of Some e \<Rightarrow> (Inl e, m) | None \<Rightarrow> (Inr (q (current (conn m))), m))"

text \<open>
  \<^verbatim>\<open>DatabaseManager.update_school_participation_by_id\<close>. The season year and the two
  dates are computed before the \<^verbatim>\<open>try\<close>, so the \<^verbatim>\<open>ValueError\<close> of \<^verbatim>\<open>int(season_year)\<close>
  propagates; every exception inside the \<^verbatim>\<open>try\<close> is answered by a rollback and the
  result \<^verbatim>\<open>False\<close>.
\<close>

definition season_year_of :: "string \<Rightarrow> string \<times> bool" where
  "season_year_of season_display =
     (if py_contains '' - current'' season_display
      then (before_first '' - current'' season_display, True)
      else (case split_on (CHR ''-'') season_display of p # ps \<Rightarrow> (p, False) | [] \<Rightarrow> ([], False)))"

definition season_end_of :: "string \<Rightarrow> bool \<Rightarrow> py_error + string option" where
  "season_end_of season_year is_cur =
     (if is_cur then Inr None
      else ebind (py_int season_year) (\<lambda>y. Inr (Some (str_int (y + 1) @ ''-08-31''))))"

definition update_school_participation_by_id ::
  "spliced_update \<Rightarrow> faults \<Rightarrow> int \<Rightarrow> string \<Rightarrow> bool \<Rightarrow> string \<Rightarrow> bool action" where
  "update_school_participation_by_id other faults sid team_type participating season_display =
     (case season_year_of season_display of (season_year, is_cur) \<Rightarrow>
        (case season_end_of season_year is_cur of
           Inl e \<Rightarrow> raise e
         | Inr end_d \<Rightarrow>
             try_except
               (sbind (query (faults 0) (select_participation sid season_year)) (\<lambda>existing.
                sbind (case existing of
                         Some pid \<Rightarrow>
                           sbind (execute (faults 1)
                                    (update_participation_flag other pid team_type participating))
                             (\<lambda>n. return ())
                       | None \<Rightarrow>
                           sbind (execute (faults 1)
                                    (insert_participation sid (season_year @ ''-09-01'') end_d
                                       team_type participating))
                             (\<lambda>n. return ())) (\<lambda>u.
                sbind (commit (faults 2)) (\<lambda>u.
                return True))))
               (\<lambda>e. sbind rollback (\<lambda>u. return False))))"

text \<open>
  The example manager after an \<open>add_result\<close> whose commit failed: the inserted result
  row is in the current database and not in the committed one.
\<close>

definition example_pending_manager :: DatabaseManager where
  "example_pending_manager =
     snd (add_result (\<lambda>k. if k = 1 then Some OperationalError else None)
            1 None (Some 1) None None example_manager)"

section \<open>Schools and their CRR names (database/manager.py)\<close>



















section \<open>The invariant of the school caches\<close>







section \<open>Properties of the overlap classifier\<close>

lemma season_dates_disjoint_iff:
  assumes "ns < ne" "es < ee"
  shows "season_dates ns ne \<inter> season_dates es ee = {} \<longleftrightarrow> (ns \<ge> ee \<or> es \<ge> ne)"
proof
  assume dis: "season_dates ns ne \<inter> season_dates es ee = {}"
  show "ns \<ge> ee \<or> es \<ge> ne"
  proof (rule ccontr)
    assume "\<not> (ns \<ge> ee \<or> es \<ge> ne)"
    then have lt: "ns < ee" "es < ne" by auto
    define y where "y = max ns es"
    have "(y, 9, 1) \<in> season_dates ns ne" "(y, 9, 1) \<in> season_dates es ee"
      using assms lt by (auto simp: season_dates_def y_def)
    with dis show False by blast
  qed
next
  assume "ns \<ge> ee \<or> es \<ge> ne"
  then show "season_dates ns ne \<inter> season_dates es ee = {}"
    by (auto simp: season_dates_def)
qed

text \<open>
  C1. For finite seasons with \<open>start_year < end_year\<close>, \<open>analyze_overlap\<close> answers
  \<open>NO_OVERLAP\<close> exactly when the two academic-year date ranges are disjoint, which is
  exactly when one season starts in or after the year the other ends; otherwise the
  answer is one of the five overlap classifications.
\<close>

theorem analyze_overlap_finite:
  assumes "end_year new_season = Some ne" "end_year existing_season = Some ee"
    and "start_year new_season < ne" "start_year existing_season < ee"
  shows "(analyze_overlap new_season existing_season = ''NO_OVERLAP''
            \<longleftrightarrow> season_dates (start_year new_season) ne
                  \<inter> season_dates (start_year existing_season) ee = {})
       \<and> (analyze_overlap new_season existing_season = ''NO_OVERLAP''
            \<longleftrightarrow> (start_year new_season \<ge> ee \<or> start_year existing_season \<ge> ne))
       \<and> (\<not> (start_year new_season \<ge> ee \<or> start_year existing_season \<ge> ne)
            \<longrightarrow> analyze_overlap new_season existing_season \<in> overlap_classes)"
proof -
  have iff: "analyze_overlap new_season existing_season = ''NO_OVERLAP''
      \<longleftrightarrow> (start_year new_season \<ge> ee \<or> start_year existing_season \<ge> ne)"
    using assms by (auto simp: analyze_overlap_def is_current_def Let_def)
  have cls: "\<not> (start_year new_season \<ge> ee \<or> start_year existing_season \<ge> ne)
      \<Longrightarrow> analyze_overlap new_season existing_season \<in> overlap_classes"
    using assms by (auto simp: analyze_overlap_def is_current_def Let_def overlap_classes_def)
  show ?thesis
    using iff cls season_dates_disjoint_iff[OF assms(3,4)] by blast
qed

theorem analyze_overlap_finite_witness:
  "analyze_overlap \<lparr>start_year = 2024, end_year = Some 2025\<rparr>
       \<lparr>start_year = 2023, end_year = Some 2024\<rparr> = ''NO_OVERLAP''
   \<and> analyze_overlap \<lparr>start_year = 2023, end_year = Some 2025\<rparr>
       \<lparr>start_year = 2024, end_year = Some 2026\<rparr> \<in> overlap_classes"
  using analyze_overlap_finite[of "\<lparr>start_year = 2024, end_year = Some 2025\<rparr>" 2025
          "\<lparr>start_year = 2023, end_year = Some 2024\<rparr>" 2024]
        analyze_overlap_finite[of "\<lparr>start_year = 2023, end_year = Some 2025\<rparr>" 2025
          "\<lparr>start_year = 2024, end_year = Some 2026\<rparr>" 2026]
  by simp

section \<open>Properties of the time-string parser\<close>

lemma ebind_Inl_iff:
  "ebind r f = Inl e \<longleftrightarrow> r = Inl e \<or> (\<exists>v. r = Inr v \<and> f v = Inl e)"
  by (cases r) (auto simp: ebind_def)

lemma ebind_Inr_iff:
  "ebind r f = Inr x \<longleftrightarrow> (\<exists>v. r = Inr v \<and> f v = Inr x)"
  by (cases r) (auto simp: ebind_def)

lemma py_int_error: "py_int s = Inl e \<Longrightarrow> e = ValueError"
  by (simp add: py_int_def Let_def split: if_splits)

lemma int_or_zero_error: "int_or_zero s = Inl e \<Longrightarrow> e = ValueError"
  by (auto simp: int_or_zero_def dest: py_int_error split: if_splits)

lemma check_seconds_error: "check_seconds r = Inl e \<Longrightarrow> e = ValueError"
  by (auto simp: check_seconds_def split: prod.splits if_splits)

lemma check_seconds_Inr:
  "check_seconds r = Inr (m, s, ms) \<longleftrightarrow> r = (m, s, ms) \<and> s < 60"
  by (auto simp: check_seconds_def split: prod.splits if_splits)

lemma ms_field_error: "ms_field s = Inl e \<Longrightarrow> e = ValueError"
  by (auto simp: ms_field_def dest: py_int_error)

lemma unpack2_error: "unpack2 xs = Inl e \<Longrightarrow> e = ValueError"
  by (auto simp: unpack2_def split: list.splits)

lemma digit_parse_error: "digit_parse text = Inl e \<Longrightarrow> e = ValueError"
  by (auto simp: digit_parse_def Let_def ebind_Inl_iff py_index_def ljust_def
      dest: py_int_error check_seconds_error split: if_splits)

lemma formatted_parse_seconds: "formatted_parse text = Inr (m, s, ms) \<Longrightarrow> s < 60"
  by (auto simp: formatted_parse_def ebind_Inr_iff check_seconds_Inr
      split: if_splits list.splits)

lemma digit_parse_seconds: "digit_parse text = Inr (m, s, ms) \<Longrightarrow> s < 60"
  by (auto simp: digit_parse_def Let_def ebind_Inr_iff check_seconds_Inr
      split: if_splits)

lemma formatted_parse_error: "formatted_parse text = Inl e \<Longrightarrow> e = ValueError"
  by (auto simp: formatted_parse_def sec_and_ms_def ebind_Inl_iff
      dest: int_or_zero_error check_seconds_error ms_field_error unpack2_error
      split: if_splits list.splits)

lemma parse_time_input_error: "parse_time_input text = Inl e \<Longrightarrow> e = ValueError"
  by (auto simp: parse_time_input_def Let_def dest: digit_parse_error formatted_parse_error
      split: if_splits sum.splits)

lemma is_decimal_code_point: "is_decimal c \<Longrightarrow> code_point c < 127"
  by (simp add: is_decimal_def)

lemma is_decimal_transform: "is_decimal c \<Longrightarrow> int_transform c = c"
  by (simp add: int_transform_def is_decimal_def)

lemma is_decimal_not_space: "is_decimal c \<Longrightarrow> \<not> c_isspace c"
  by (auto simp: is_decimal_def c_isspace_def)

lemma is_decimal_not_py_space: "is_decimal c \<Longrightarrow> \<not> py_isspace c"
  by (auto simp: is_decimal_def py_isspace_def Let_def)

lemma code_point_simps:
  "code_point (CHR ''-'') = 45" "code_point (CHR ''+'') = 43" "code_point (CHR ''_'') = 95"
  "code_point (CHR '':'') = 58" "code_point (CHR ''.'') = 46" "code_point (CHR ''0'') = 48"
  by (simp_all add: code_point_def)

lemma is_decimal_not_special:
  assumes "is_decimal c"
  shows "c \<noteq> CHR ''-''" "c \<noteq> CHR ''+''" "c \<noteq> CHR ''_''" "c \<noteq> CHR '':''" "c \<noteq> CHR ''.''"
  using assms by (auto simp: is_decimal_def code_point_simps)

lemma double_underscore_none:
  "CHR ''_'' \<notin> set ds \<Longrightarrow> \<not> double_underscore ds"
  by (induction ds rule: double_underscore.induct) auto

lemma py_int_decimal:
  assumes "ds \<noteq> []" "\<forall>c\<in>set ds. is_decimal c"
  shows "py_int ds = Inr (digits_value ds)"
proof -
  obtain d rest where ds: "ds = d # rest" using assms(1) by (cases ds) auto
  have m: "map int_transform ds = ds"
    using assms(2) by (simp add: map_idI is_decimal_transform)
  have dw: "dropWhile c_isspace ds = ds"
    using assms(2) ds by (simp add: is_decimal_not_space)
  have d: "d \<noteq> CHR ''-''" "d \<noteq> CHR ''+''"
    using assms(2) ds is_decimal_not_special by auto
  have body: "takeWhile int_body_char ds = ds" "dropWhile int_body_char ds = []"
    using assms(2) by (auto simp: int_body_char_def)
  have us: "CHR ''_'' \<notin> set ds"
    using assms(2) is_decimal_not_special(3) by blast
  have hl: "hd ds \<noteq> CHR ''_''" "last ds \<noteq> CHR ''_''"
    using us assms(1) by (metis hd_in_set, metis last_in_set)
  have f: "filter is_decimal ds = ds" using assms(2) by simp
  show ?thesis
    unfolding py_int_def m dw Let_def
    using d hl f body assms(1) double_underscore_none[OF us]
    by (simp add: ds)
qed

lemma parse_time_input_seconds: "parse_time_input text = Inr (m, s, ms) \<Longrightarrow> s < 60"
  by (auto simp: parse_time_input_def Let_def
      dest: digit_parse_seconds formatted_parse_seconds formatted_parse_error
      split: if_splits sum.splits)

lemma filter_dropWhile_disjoint:
  "(\<And>c. Q c \<Longrightarrow> \<not> P c) \<Longrightarrow> filter P (dropWhile Q s) = filter P s"
  by (induction s) auto

lemma filter_strip:
  assumes "\<And>c. py_isspace c \<Longrightarrow> \<not> P c"
  shows "filter P (strip s) = filter P s"
proof -
  have "filter P (strip s) = rev (filter P (dropWhile py_isspace (rev (dropWhile py_isspace s))))"
    by (simp add: strip_def rev_filter)
  also have "\<dots> = rev (filter P (rev (dropWhile py_isspace s)))"
    using assms by (simp add: filter_dropWhile_disjoint)
  also have "\<dots> = filter P (dropWhile py_isspace s)"
    by (simp add: rev_filter)
  also have "\<dots> = filter P s"
    using assms by (simp add: filter_dropWhile_disjoint)
  finally show ?thesis .
qed

lemma set_strip: "set (strip s) \<subseteq> set s"
proof -
  have "set (strip s) \<subseteq> set (dropWhile py_isspace s)"
    unfolding strip_def using set_dropWhileD by fastforce
  also have "\<dots> \<subseteq> set s" using set_dropWhileD by fastforce
  finally show ?thesis .
qed

lemma py_isdigit_not_space: "py_isspace c \<Longrightarrow> \<not> py_isdigit c"
  by (auto simp: py_isdigit_def py_isspace_def is_decimal_def Let_def)

lemma strip_id:
  assumes "s \<noteq> []" "\<not> py_isspace (hd s)" "\<not> py_isspace (last s)"
  shows "strip s = s"
proof -
  have a: "dropWhile py_isspace s = s" using assms(1,2) by (cases s) auto
  have h: "hd (rev s) = last s" using assms(1) by (simp add: hd_rev)
  have "rev s \<noteq> []" using assms(1) by simp
  then obtain x xs where r: "rev s = x # xs" by (cases "rev s") auto
  then have x: "x = last s" using h by simp
  have b: "dropWhile py_isspace (rev s) = rev s"
    unfolding r using x assms(3) by simp
  show ?thesis by (simp add: strip_def a b)
qed

text \<open>The digit path on a string whose digits are decimal and number at most six.\<close>

lemma slice_decimal:
  "\<forall>c\<in>set ds. is_decimal c \<Longrightarrow> \<forall>c\<in>set (slice i j ds). is_decimal c"
  by (auto simp: slice_def dest: in_set_takeD in_set_dropD)

lemma digit_parse_short:
  assumes dec: "\<forall>c\<in>set (filter py_isdigit text). is_decimal c"
    and len: "1 \<le> length (filter py_isdigit text)" "length (filter py_isdigit text) \<le> 6"
  shows "digit_parse text =
    (let d = ljust 6 (CHR ''0'') (filter py_isdigit text)
     in check_seconds (digits_value [d ! 0], digits_value (slice 1 3 d), digits_value (slice 3 6 d)))"
proof -
  define d where "d = ljust 6 (CHR ''0'') (filter py_isdigit text)"
  have zero: "is_decimal (CHR ''0'')" by (simp add: is_decimal_def code_point_simps)
  have dlen: "length d = 6" using len by (simp add: d_def ljust_def)
  have ddec: "\<forall>c\<in>set d. is_decimal c"
    using dec zero by (auto simp: d_def ljust_def)
  have i0: "py_index d 0 = Inr (d ! 0)" using dlen by (simp add: py_index_def)
  have d0: "is_decimal (d ! 0)" using ddec dlen by (metis nth_mem zero_less_numeral)
  have m: "py_int [d ! 0] = Inr (digits_value [d ! 0])"
    using d0 by (intro py_int_decimal) auto
  have s: "py_int (slice 1 3 d) = Inr (digits_value (slice 1 3 d))"
  proof (rule py_int_decimal)
    show "slice 1 3 d \<noteq> []" using dlen by (auto simp: slice_def)
    show "\<forall>c\<in>set (slice 1 3 d). is_decimal c" by (rule slice_decimal[OF ddec])
  qed
  have ms: "py_int (slice 3 6 d) = Inr (digits_value (slice 3 6 d))"
  proof (rule py_int_decimal)
    show "slice 3 6 d \<noteq> []" using dlen by (auto simp: slice_def)
    show "\<forall>c\<in>set (slice 3 6 d). is_decimal c" by (rule slice_decimal[OF ddec])
  qed
  have ne: "filter py_isdigit text \<noteq> []" using len by auto
  show ?thesis
    unfolding digit_parse_def Let_def d_def[symmetric]
    using ne len(2) s by (simp add: i0 m ms ebind_def)
qed

lemma int_transform_decimal: "is_decimal (int_transform c) \<Longrightarrow> int_transform c = c"
  by (auto simp: int_transform_def is_decimal_def code_point_simps code_point_def split: if_splits)

lemma py_int_body_subset:
  assumes "py_int s = Inr v"
  obtains body where "body \<noteq> []" "hd body \<noteq> CHR ''_''"
    "\<forall>c\<in>set body. is_decimal c \<longrightarrow> c \<in> set s"
    "\<forall>c\<in>set body. int_body_char c"
    "v = digits_value (filter is_decimal body) \<or> v = - digits_value (filter is_decimal body)"
proof -
  define t where "t = dropWhile c_isspace (map int_transform s)"
  define t2 where "t2 = (case t of c # cs \<Rightarrow> (if c = CHR ''+'' \<or> c = CHR ''-'' then cs else t) | [] \<Rightarrow> t)"
  define body where "body = takeWhile int_body_char t2"
  have sub: "set body \<subseteq> set (map int_transform s)"
  proof -
    have "set body \<subseteq> set t2" unfolding body_def by (meson set_takeWhileD subsetI)
    also have "set t2 \<subseteq> set t" unfolding t2_def by (auto split: list.splits)
    also have "set t \<subseteq> set (map int_transform s)"
      unfolding t_def by (meson set_dropWhileD subsetI)
    finally show ?thesis .
  qed
  have dec: "\<forall>c\<in>set body. is_decimal c \<longrightarrow> c \<in> set s"
  proof (intro ballI impI)
    fix c assume "c \<in> set body" "is_decimal c"
    then obtain c' where "c' \<in> set s" "c = int_transform c'" using sub by auto
    then show "c \<in> set s" using \<open>is_decimal c\<close> int_transform_decimal by metis
  qed
  have ok: "body \<noteq> []" "hd body \<noteq> CHR ''_''"
    and v: "v = digits_value (filter is_decimal body) \<or> v = - digits_value (filter is_decimal body)"
    using assms unfolding py_int_def Let_def t_def[symmetric] t2_def[symmetric] body_def[symmetric]
    by (auto split: if_splits)
  have "\<forall>c\<in>set body. int_body_char c"
    unfolding body_def by (meson set_takeWhileD)
  with dec ok v show ?thesis using that by blast
qed

lemma py_int_has_decimal:
  assumes "py_int s = Inr v" shows "\<exists>c\<in>set s. is_decimal c"
proof -
  from py_int_body_subset[OF assms] obtain body where b: "body \<noteq> []" "hd body \<noteq> CHR ''_''"
    "\<forall>c\<in>set body. is_decimal c \<longrightarrow> c \<in> set s" "\<forall>c\<in>set body. int_body_char c"
    by blast
  have "hd body \<in> set body" using b(1) by simp
  then have "is_decimal (hd body)" using b(2,4) by (auto simp: int_body_char_def)
  then show ?thesis using b(3) \<open>hd body \<in> set body\<close> by blast
qed

lemma digits_value_zeros_aux:
  "\<forall>c\<in>set ds. c = CHR ''0'' \<Longrightarrow> foldl (\<lambda>a c. 10 * a + digit_val c) 0 ds = 0"
  by (induction ds rule: rev_induct) (auto simp: digit_val_def code_point_simps)

lemma digits_value_zeros: "\<forall>c\<in>set ds. c = CHR ''0'' \<Longrightarrow> digits_value ds = 0"
  by (simp add: digits_value_def digits_value_zeros_aux)

lemma py_int_only_zeros:
  assumes "py_int s = Inr v" "\<forall>c\<in>set s. is_decimal c \<longrightarrow> c = CHR ''0''"
  shows "v = 0"
proof -
  from py_int_body_subset[OF assms(1)] obtain body where
    b: "\<forall>c\<in>set body. is_decimal c \<longrightarrow> c \<in> set s"
    and v: "v = digits_value (filter is_decimal body) \<or> v = - digits_value (filter is_decimal body)"
    by blast
  have "\<forall>c\<in>set (filter is_decimal body). c = CHR ''0''" using b assms(2) by auto
  then have "digits_value (filter is_decimal body) = 0" by (rule digits_value_zeros)
  with v show ?thesis by auto
qed

lemma int_or_zero_only_zeros:
  "int_or_zero s = Inr v \<Longrightarrow> \<forall>c\<in>set s. is_decimal c \<longrightarrow> c = CHR ''0'' \<Longrightarrow> v = 0"
  by (auto simp: int_or_zero_def dest: py_int_only_zeros split: if_splits)

lemma ms_field_only_zeros:
  assumes "ms_field s = Inr v" "\<forall>c\<in>set s. is_decimal c \<longrightarrow> c = CHR ''0''"
  shows "v = 0"
proof -
  have "\<forall>c\<in>set (slice 0 3 (ljust 3 (CHR ''0'') s)). is_decimal c \<longrightarrow> c = CHR ''0''"
    using assms(2) by (auto simp: slice_def ljust_def dest!: in_set_takeD)
  then show ?thesis using assms(1) py_int_only_zeros unfolding ms_field_def by blast
qed

lemma set_split_on: "p \<in> set (split_on sep s) \<Longrightarrow> set p \<subseteq> set s"
proof (induction s arbitrary: p)
  case Nil then show ?case by simp
next
  case (Cons c cs)
  show ?case
  proof (cases "c = sep")
    case True then show ?thesis using Cons by auto
  next
    case False
    then show ?thesis using Cons by (fastforce split: list.splits)
  qed
qed

lemma set_split1: "p \<in> set (split1 sep s) \<Longrightarrow> set p \<subseteq> set s"
proof -
  assume p: "p \<in> set (split1 sep s)"
  have tl_sub: "\<And>xs :: string. set (tl xs) \<subseteq> set xs"
  proof -
    fix xs :: string show "set (tl xs) \<subseteq> set xs" by (cases xs) auto
  qed
  have "set (tl (dropWhile (\<lambda>c. c \<noteq> sep) s)) \<subseteq> set (dropWhile (\<lambda>c. c \<noteq> sep) s)"
    by (rule tl_sub)
  then have "set (tl (dropWhile (\<lambda>c. c \<noteq> sep) s)) \<subseteq> set s"
    using set_dropWhileD by fastforce
  moreover have "set (takeWhile (\<lambda>c. c \<noteq> sep) s) \<subseteq> set s"
    by (meson set_takeWhileD subsetI)
  ultimately show ?thesis using p by (auto simp: split1_def split: if_splits)
qed

lemma sec_and_ms_only_zeros:
  assumes "sec_and_ms s = Inr (sec, ms)" "\<forall>c\<in>set s. is_decimal c \<longrightarrow> c = CHR ''0''"
  shows "sec = 0 \<and> ms = 0"
proof -
  from assms(1) obtain sec_str ms_str where
    u: "unpack2 (split1 (CHR ''.'') s) = Inr (sec_str, ms_str)"
    and a: "int_or_zero sec_str = Inr sec" and b: "ms_field ms_str = Inr ms"
    by (auto simp: sec_and_ms_def ebind_Inr_iff)
  from u have "split1 (CHR ''.'') s = [sec_str, ms_str]"
    by (auto simp: unpack2_def split: list.splits)
  then have "set sec_str \<subseteq> set s" "set ms_str \<subseteq> set s"
    using set_split1[of _ "CHR ''.''" s] by auto
  then show ?thesis
    using int_or_zero_only_zeros[OF a] ms_field_only_zeros[OF b] assms(2) by blast
qed

lemma formatted_parse_only_zeros:
  assumes "formatted_parse text = Inr r" "\<forall>c\<in>set text. is_decimal c \<longrightarrow> c = CHR ''0''"
  shows "r = (0, 0, 0)"
proof (cases "CHR '':'' \<in> set text")
  case True
  obtain time_part rest where sp: "split_on (CHR '':'') text = time_part # rest"
    using assms(1) True by (cases "split_on (CHR '':'') text") (auto simp: formatted_parse_def)
  have tp: "set time_part \<subseteq> set text" using set_split_on[of time_part "CHR '':''" "text"] sp by simp
  obtain m s ms where r: "r = (m, s, ms)" by (cases r) auto
  from assms(1) True sp r have m: "int_or_zero time_part = Inr m"
    and rest: "(case rest of [] \<Rightarrow> Inr (0, 0)
         | sec_part # _ \<Rightarrow> if CHR ''.'' \<in> set sec_part then sec_and_ms sec_part
             else ebind (int_or_zero sec_part) (\<lambda>seconds. Inr (seconds, 0))) = Inr (s, ms)"
    by (auto simp: formatted_parse_def ebind_Inr_iff check_seconds_Inr)
  have "m = 0" using int_or_zero_only_zeros[OF m] tp assms(2) by blast
  moreover have "s = 0 \<and> ms = 0"
  proof (cases rest)
    case Nil then show ?thesis using rest by simp
  next
    case (Cons sec_part more)
    have "sec_part \<in> set (split_on (CHR '':'') text)" using sp Cons by simp
    then have sub: "set sec_part \<subseteq> set text" by (rule set_split_on)
    then have z: "\<forall>c\<in>set sec_part. is_decimal c \<longrightarrow> c = CHR ''0''" using assms(2) by blast
    show ?thesis
    proof (cases "CHR ''.'' \<in> set sec_part")
      case True
      then show ?thesis using rest Cons sec_and_ms_only_zeros[OF _ z] by simp
    next
      case False
      then show ?thesis using rest Cons int_or_zero_only_zeros[OF _ z]
        by (auto simp: ebind_Inr_iff)
    qed
  qed
  ultimately show ?thesis using r by simp
next
  case False
  obtain m s ms where r: "r = (m, s, ms)" by (cases r) auto
  from assms(1) False r have "sec_and_ms text = Inr (s, ms)" "m = 0"
    by (auto simp: formatted_parse_def ebind_Inr_iff check_seconds_Inr)
  then show ?thesis using sec_and_ms_only_zeros[OF _ assms(2)] r by simp
qed

lemma digit_parse_no_decimal:
  assumes "\<forall>c\<in>set text. \<not> is_decimal c"
  shows "digit_parse text = Inl ValueError"
proof (cases "filter py_isdigit text = []")
  case True then show ?thesis by (simp add: digit_parse_def)
next
  case False
  define digits where "digits = filter py_isdigit text"
  have nd: "\<forall>c\<in>set digits. \<not> is_decimal c" using assms by (simp add: digits_def)
  have ne: "digits \<noteq> []" using False by (simp add: digits_def)
  have err: "\<And>s. s \<noteq> [] \<Longrightarrow> set s \<subseteq> set digits \<Longrightarrow> py_int s = Inl ValueError"
  proof -
    fix s assume "s \<noteq> []" "set s \<subseteq> set digits"
    then have "\<not> (\<exists>c\<in>set s. is_decimal c)" using nd by blast
    then have "\<not> (\<exists>v. py_int s = Inr v)" using py_int_has_decimal by blast
    then show "py_int s = Inl ValueError" using py_int_error by (cases "py_int s") auto
  qed
  show ?thesis
  proof (cases "length digits \<le> 6")
    case True
    have "ljust 6 (CHR ''0'') digits ! 0 = hd digits"
      using ne by (cases digits) (auto simp: ljust_def)
    moreover have "py_int [hd digits] = Inl ValueError" using ne by (intro err) auto
    ultimately show ?thesis
      using True ne unfolding digit_parse_def Let_def digits_def[symmetric]
      by (simp add: py_index_def ljust_def ebind_def)
  next
    case False
    have "py_int (take (length digits - 6) digits) = Inl ValueError"
      using False ne by (intro err) (auto dest: in_set_takeD)
    then show ?thesis
      using False ne unfolding digit_parse_def Let_def digits_def[symmetric]
      by (simp add: ebind_def)
  qed
qed

lemma parse_time_input_no_decimal:
  assumes "\<forall>c\<in>set text. \<not> is_decimal c"
  shows "parse_time_input text = Inl ValueError \<or> parse_time_input text = Inr (0, 0, 0)"
proof -
  have nd: "\<forall>c\<in>set (strip text). \<not> is_decimal c" using assms set_strip by blast
  have dp: "digit_parse (strip text) = Inl ValueError" by (rule digit_parse_no_decimal[OF nd])
  have z: "\<forall>c\<in>set (strip text). is_decimal c \<longrightarrow> c = CHR ''0''" using nd by blast
  show ?thesis
    using dp formatted_parse_only_zeros[OF _ z]
    by (auto simp: parse_time_input_def Let_def split: sum.splits dest: formatted_parse_error)
qed

lemma parse_time_input_no_decimal_plain:
  assumes "\<forall>c\<in>set text. \<not> is_decimal c" "CHR '':'' \<notin> set text" "CHR ''.'' \<notin> set text"
  shows "parse_time_input text = Inl ValueError"
proof -
  have nd: "\<forall>c\<in>set (strip text). \<not> is_decimal c" using assms(1) set_strip by blast
  have dp: "digit_parse (strip text) = Inl ValueError" by (rule digit_parse_no_decimal[OF nd])
  have "CHR '':'' \<notin> set (strip text)" "CHR ''.'' \<notin> set (strip text)"
    using assms(2,3) set_strip by blast+
  then show ?thesis using dp by (simp add: parse_time_input_def Let_def)
qed

text \<open>Evaluation of the parser on literal strings, by unfolding its definition.\<close>

lemma replicate_numeral_unfold:
  "replicate (numeral k) x = x # replicate (pred_numeral k) x"
  by (simp add: numeral_eq_Suc)

lemmas eval_defs = parse_time_input_def digit_parse_def formatted_parse_def sec_and_ms_def
  check_seconds_def int_or_zero_def ms_field_def py_int_def digits_value_def digit_val_def
  int_body_char_def int_transform_def py_index_def slice_def ljust_def unpack2_def split1_def
  strip_def c_isspace_def py_isdigit_def is_decimal_def py_isspace_def code_point_def
  ebind_def Let_def replicate_numeral_unfold

text \<open>
  C2 (as amended). \<open>parse_time_input "704"\<close> is 7 minutes, 4 seconds, 0 milliseconds.
  For every input without colon and period whose \<^verbatim>\<open>str.isdigit\<close> characters are all
  decimal digits \<^verbatim>\<open>0\<close>..\<^verbatim>\<open>9\<close> and number between one and six, the digits padded on
  the right with zeros to six digits give the result: first digit the minutes, next two
  the seconds, last three the milliseconds, provided the seconds are below 60.
\<close>

theorem parse_time_input_digits:
  "parse_time_input ''704'' = Inr (7, 4, 0) \<and>
   (\<forall>text d. CHR '':'' \<notin> set text \<and> CHR ''.'' \<notin> set text
      \<and> (\<forall>c\<in>set text. py_isdigit c \<longrightarrow> is_decimal c)
      \<and> 1 \<le> length (filter py_isdigit text) \<and> length (filter py_isdigit text) \<le> 6
      \<and> d = ljust 6 (CHR ''0'') (filter py_isdigit text)
      \<and> digits_value (slice 1 3 d) < 60
      \<longrightarrow> parse_time_input text
          = Inr (digits_value [d ! 0], digits_value (slice 1 3 d), digits_value (slice 3 6 d)))"
proof (intro conjI allI impI)
  show "parse_time_input ''704'' = Inr (7, 4, 0)" by (simp add: eval_defs)
next
  fix inp d
  assume a: "CHR '':'' \<notin> set inp \<and> CHR ''.'' \<notin> set inp
      \<and> (\<forall>c\<in>set inp. py_isdigit c \<longrightarrow> is_decimal c)
      \<and> 1 \<le> length (filter py_isdigit inp) \<and> length (filter py_isdigit inp) \<le> 6
      \<and> d = ljust 6 (CHR ''0'') (filter py_isdigit inp)
      \<and> digits_value (slice 1 3 d) < 60"
  have f: "filter py_isdigit (strip inp) = filter py_isdigit inp"
    by (rule filter_strip) (rule py_isdigit_not_space)
  have dec: "\<forall>c\<in>set (filter py_isdigit (strip inp)). is_decimal c"
    using a unfolding f by auto
  have np: "CHR '':'' \<notin> set (strip inp)" "CHR ''.'' \<notin> set (strip inp)"
    using a set_strip by blast+
  have "parse_time_input inp = digit_parse (strip inp)"
    using np by (simp add: parse_time_input_def Let_def)
  also have "\<dots> = check_seconds (digits_value [d ! 0], digits_value (slice 1 3 d),
      digits_value (slice 3 6 d))"
    using digit_parse_short[OF dec] a unfolding f by (simp add: Let_def)
  also have "\<dots> = Inr (digits_value [d ! 0], digits_value (slice 1 3 d), digits_value (slice 3 6 d))"
    using a by (auto simp: check_seconds_def)
  finally show "parse_time_input inp
      = Inr (digits_value [d ! 0], digits_value (slice 1 3 d), digits_value (slice 3 6 d))" .
qed

theorem parse_time_input_digits_witness:
  "parse_time_input ''7m 45s'' = Inr (7, 45, 0)"
proof -
  have "CHR '':'' \<notin> set ''7m 45s'' \<and> CHR ''.'' \<notin> set ''7m 45s''
      \<and> (\<forall>c\<in>set ''7m 45s''. py_isdigit c \<longrightarrow> is_decimal c)
      \<and> 1 \<le> length (filter py_isdigit ''7m 45s'') \<and> length (filter py_isdigit ''7m 45s'') \<le> 6
      \<and> ''745000'' = ljust 6 (CHR ''0'') (filter py_isdigit ''7m 45s'')
      \<and> digits_value (slice 1 3 ''745000'') < 60"
    by (simp add: eval_defs)
  then have "parse_time_input ''7m 45s'' = Inr (digits_value [''745000'' ! 0],
      digits_value (slice 1 3 ''745000''), digits_value (slice 3 6 ''745000''))"
    using parse_time_input_digits by blast
  moreover have "digits_value [''745000'' ! 0] = 7" "digits_value (slice 1 3 ''745000'') = 45"
    "digits_value (slice 3 6 ''745000'') = 0"
    by (simp_all add: eval_defs)
  ultimately show ?thesis by simp
qed

text \<open>
  The claim without the restriction to decimal digits fails: SUPERSCRIPT TWO (U+00B2)
  is a digit for \<^verbatim>\<open>str.isdigit\<close>, so it is kept by the filter, and \<^verbatim>\<open>int()\<close>
  rejects it. The one-character input has one digit character and no result; the input
  \<^verbatim>\<open>7\<close> followed by U+00B2 has the single decimal digit 7 and no result either.
\<close>

theorem parse_time_input_digits_counterexample:
  "length (filter py_isdigit [CHR 0xB2]) = 1 \<and> CHR '':'' \<notin> set [CHR 0xB2]
   \<and> CHR ''.'' \<notin> set [CHR 0xB2] \<and> parse_time_input [CHR 0xB2] = Inl ValueError
   \<and> filter is_decimal [CHR ''7'', CHR 0xB2] = ''7''
   \<and> parse_time_input [CHR ''7'', CHR 0xB2] = Inl ValueError"
  by (simp add: eval_defs)

text \<open>
  C4 (as amended). \<open>parse_time_input\<close> returns a triple or raises \<^verbatim>\<open>ValueError\<close>, never
  another exception; a returned triple has seconds below 60; an input without any
  decimal digit raises \<^verbatim>\<open>ValueError\<close> when it has neither colon nor period, and
  otherwise raises \<^verbatim>\<open>ValueError\<close> or returns \<open>(0, 0, 0)\<close>.
\<close>

theorem parse_time_input_failure_modes:
  "(\<forall>e. parse_time_input text = Inl e \<longrightarrow> e = ValueError)
   \<and> (\<forall>m s ms. parse_time_input text = Inr (m, s, ms) \<longrightarrow> s < 60)
   \<and> ((\<forall>c\<in>set text. \<not> is_decimal c) \<and> CHR '':'' \<notin> set text \<and> CHR ''.'' \<notin> set text
        \<longrightarrow> parse_time_input text = Inl ValueError)
   \<and> ((\<forall>c\<in>set text. \<not> is_decimal c)
        \<longrightarrow> parse_time_input text = Inl ValueError \<or> parse_time_input text = Inr (0, 0, 0))"
  using parse_time_input_error[of "text"] parse_time_input_seconds[of "text"]
    parse_time_input_no_decimal[of "text"] parse_time_input_no_decimal_plain[of "text"]
  by blast

theorem parse_time_input_failure_modes_witness:
  "parse_time_input ''abc'' = Inl ValueError
   \<and> (parse_time_input ''x.-'' = Inl ValueError \<or> parse_time_input ''x.-'' = Inr (0, 0, 0))"
proof -
  have a: "(\<forall>c\<in>set ''abc''. \<not> is_decimal c) \<and> CHR '':'' \<notin> set ''abc'' \<and> CHR ''.'' \<notin> set ''abc''"
    by (simp add: eval_defs)
  have b: "\<forall>c\<in>set ''x.-''. \<not> is_decimal c"
    by (simp add: eval_defs)
  note fm = parse_time_input_failure_modes[of "''abc''"]
  note fm2 = parse_time_input_failure_modes[of "''x.-''"]
  have "parse_time_input ''abc'' = Inl ValueError"
    by (rule mp[OF conjunct1[OF conjunct2[OF conjunct2[OF fm]]] a])
  moreover have "parse_time_input ''x.-'' = Inl ValueError \<or> parse_time_input ''x.-'' = Inr (0, 0, 0)"
    by (rule mp[OF conjunct2[OF conjunct2[OF conjunct2[OF fm2]]] b])
  ultimately show ?thesis by (rule conjI)
qed

text \<open>
  The claim that every input without a decimal digit raises \<^verbatim>\<open>ValueError\<close> fails on
  the one-character input \<^verbatim>\<open>:\<close>: the formatted path reads every empty field as 0.
\<close>

theorem parse_time_input_no_digit_counterexample:
  "filter is_decimal '':'' = [] \<and> parse_time_input '':'' = Inr (0, 0, 0)"
  by (simp add: eval_defs)

section \<open>Round trip of normalised time strings\<close>

declare str_nat.simps [simp del]

lemma code_point_digit_char: "d < 10 \<Longrightarrow> code_point (digit_char d) = 48 + d"
proof -
  assume "d < 10"
  then have "d = 0 \<or> d = 1 \<or> d = 2 \<or> d = 3 \<or> d = 4 \<or> d = 5 \<or> d = 6 \<or> d = 7
      \<or> d = 8 \<or> d = 9" by arith
  then show ?thesis
    by (elim disjE) (simp_all add: digit_char_def code_point_def)
qed

lemma is_decimal_digit_char: "d < 10 \<Longrightarrow> is_decimal (digit_char d)"
  by (simp add: is_decimal_def code_point_digit_char)

lemma digit_val_digit_char: "d < 10 \<Longrightarrow> digit_val (digit_char d) = int d"
  by (simp add: digit_val_def code_point_digit_char)

lemma str_nat_decimal: "\<forall>c\<in>set (str_nat n). is_decimal c"
proof (induction n rule: str_nat.induct)
  case (1 n)
  show ?case
  proof (cases "n < 10")
    case True
    then show ?thesis by (simp add: str_nat.simps[of n] is_decimal_digit_char)
  next
    case False
    then show ?thesis using 1 by (simp add: str_nat.simps[of n] is_decimal_digit_char)
  qed
qed

lemma str_nat_nonempty: "str_nat n \<noteq> []"
  by (simp add: str_nat.simps[of n])

lemma digits_value_snoc: "digits_value (ds @ [c]) = 10 * digits_value ds + digit_val c"
  by (simp add: digits_value_def)

lemma digits_value_str_nat: "digits_value (str_nat n) = int n"
proof (induction n rule: str_nat.induct)
  case (1 n)
  show ?case
  proof (cases "n < 10")
    case True
    then show ?thesis
      by (simp add: str_nat.simps[of n] digits_value_def digit_val_digit_char)
  next
    case False
    then have "digits_value (str_nat n) = 10 * int (n div 10) + int (n mod 10)"
      using 1 by (simp add: str_nat.simps[of n] digits_value_snoc digit_val_digit_char)
    then show ?thesis by (simp add: zdiv_int zmod_int)
  qed
qed

lemma digits_value_zero_prefix:
  "digits_value (replicate k (CHR ''0'') @ ds) = digits_value ds"
proof -
  have "foldl (\<lambda>a c. 10 * a + digit_val c) 0 (replicate k (CHR ''0'')) = 0"
    by (rule digits_value_zeros_aux) simp
  then show ?thesis by (simp add: digits_value_def)
qed

lemma length_str_nat_small:
  "n < 10 \<Longrightarrow> length (str_nat n) = 1"
  "n < 100 \<Longrightarrow> length (str_nat n) \<le> 2"
  "n < 1000 \<Longrightarrow> length (str_nat n) \<le> 3"
proof -
  show a: "length (str_nat n) = 1" if "n < 10" for n using that by (simp add: str_nat.simps[of n])
  show b: "length (str_nat n) \<le> 2" if "n < 100" for n
    using that a[of "n div 10"] by (simp add: str_nat.simps[of n])
  show "length (str_nat n) \<le> 3" if "n < 1000"
    using that b[of "n div 10"] by (simp add: str_nat.simps[of n])
qed

lemma split_on_no_sep: "sep \<notin> set s \<Longrightarrow> split_on sep s = [s]"
  by (induction s) auto

lemma split_on_append:
  "sep \<notin> set a \<Longrightarrow> split_on sep (a @ sep # b) = a # split_on sep b"
  by (induction a) auto

lemma split1_append:
  "sep \<notin> set a \<Longrightarrow> split1 sep (a @ sep # b) = [a, b]"
proof -
  assume a: "sep \<notin> set a"
  then have p: "\<forall>x\<in>set a. x \<noteq> sep" by auto
  have "takeWhile (\<lambda>c. c \<noteq> sep) (a @ sep # b) = a"
    using takeWhile_append2[of a "\<lambda>c. c \<noteq> sep" "sep # b"] p by simp
  moreover have "dropWhile (\<lambda>c. c \<noteq> sep) (a @ sep # b) = sep # b"
    using dropWhile_append2[of a "\<lambda>c. c \<noteq> sep" "sep # b"] p by simp
  ultimately show ?thesis by (simp add: split1_def)
qed

lemma decimal_set_no_special:
  assumes "\<forall>c\<in>set ds. is_decimal c"
  shows "CHR '':'' \<notin> set ds" "CHR ''.'' \<notin> set ds"
proof -
  have "\<not> is_decimal (CHR '':'')" "\<not> is_decimal (CHR ''.'')"
    by (simp_all add: is_decimal_def code_point_simps)
  then show "CHR '':'' \<notin> set ds" "CHR ''.'' \<notin> set ds"
    using assms by auto
qed

lemma parse_time_input_formatted:
  assumes A: "A \<noteq> []" "\<forall>c\<in>set A. is_decimal c"
    and B: "B \<noteq> []" "\<forall>c\<in>set B. is_decimal c"
    and C: "length C = 3" "\<forall>c\<in>set C. is_decimal c"
    and sec: "digits_value B < 60"
  shows "parse_time_input (A @ '':'' @ B @ ''.'' @ C)
     = Inr (digits_value A, digits_value B, digits_value C)"
proof -
  define t where "t = A @ '':'' @ B @ ''.'' @ C"
  have Cne: "C \<noteq> []" using C(1) by auto
  have hd_t: "hd t = hd A" using A(1) by (simp add: t_def)
  have last_t: "last t = last C" using Cne by (simp add: t_def)
  have "is_decimal (hd A)" "is_decimal (last C)" using A Cne C(2) by auto
  then have st: "strip t = t"
    using hd_t last_t is_decimal_not_py_space by (intro strip_id) (auto simp: t_def)
  have colon: "CHR '':'' \<in> set t" by (simp add: t_def)
  have sp: "split_on (CHR '':'') t = [A, B @ ''.'' @ C]"
  proof -
    have "CHR '':'' \<notin> set (B @ ''.'' @ C)"
      using decimal_set_no_special(1)[OF B(2)] decimal_set_no_special(1)[OF C(2)] by simp
    then have "split_on (CHR '':'') (B @ ''.'' @ C) = [B @ ''.'' @ C]" by (rule split_on_no_sep)
    then show ?thesis
      using split_on_append[OF decimal_set_no_special(1)[OF A(2)], of "B @ ''.'' @ C"]
      by (simp add: t_def)
  qed
  have s1: "split1 (CHR ''.'') (B @ CHR ''.'' # C) = [B, C]"
    by (rule split1_append[OF decimal_set_no_special(2)[OF B(2)]])
  have ia: "int_or_zero A = Inr (digits_value A)"
    using A by (simp add: int_or_zero_def py_int_decimal)
  have ib: "int_or_zero B = Inr (digits_value B)"
    using B by (simp add: int_or_zero_def py_int_decimal)
  have ic: "ms_field C = Inr (digits_value C)"
    using C Cne by (simp add: ms_field_def ljust_def slice_def py_int_decimal)
  have sm: "sec_and_ms (B @ CHR ''.'' # C) = Inr (digits_value B, digits_value C)"
    by (simp add: sec_and_ms_def s1 unpack2_def ebind_def ib ic)
  have "formatted_parse t = Inr (digits_value A, digits_value B, digits_value C)"
    using colon sec by (simp add: formatted_parse_def sp ia sm ebind_def check_seconds_def)
  then show ?thesis
    using colon st unfolding t_def[symmetric] by (simp add: parse_time_input_def)
qed

lemma format_d_nonneg:
  assumes "0 \<le> i"
  shows "format_d w i \<noteq> []" "\<forall>c\<in>set (format_d w i). is_decimal c"
    "digits_value (format_d w i) = i"
  using assms str_nat_nonempty str_nat_decimal
  by (auto simp: format_d_def Let_def digits_value_zero_prefix digits_value_str_nat
      is_decimal_def code_point_simps)

lemma length_format_d_3:
  assumes "0 \<le> i" "i \<le> 999"
  shows "length (format_d 3 i) = 3"
proof -
  have "nat i < 1000" using assms by simp
  then have "length (str_nat (nat i)) \<le> 3" by (rule length_str_nat_small(3))
  then show ?thesis using assms by (simp add: format_d_def Let_def)
qed

text \<open>
  C9. For minutes \<open>m \<ge> 0\<close>, seconds \<open>0 \<le> s \<le> 59\<close> and milliseconds
  \<open>0 \<le> ms \<le> 999\<close>, parsing the normalised string
  \<^verbatim>\<open>f"{m:02d}:{s:02d}.{ms:03d}"\<close> returns exactly \<open>(m, s, ms)\<close>, and normalising an
  already normalised field leaves its text unchanged.
\<close>

theorem normalized_time_round_trip:
  assumes "0 \<le> m" "0 \<le> s" "s \<le> 59" "0 \<le> ms" "ms \<le> 999"
  shows "parse_time_input (normalized_time m s ms) = Inr (m, s, ms)
       \<and> TimeEntry_normalize (normalized_time m s ms) = normalized_time m s ms"
proof -
  have p: "parse_time_input (normalized_time m s ms) = Inr (m, s, ms)"
    unfolding normalized_time_def
    using parse_time_input_formatted[OF format_d_nonneg(1,2)[OF assms(1)]
        format_d_nonneg(1,2)[OF assms(2)] length_format_d_3[OF assms(4,5)]
        format_d_nonneg(2)[OF assms(4)], of 2 2]
      assms(3)
    by (simp add: format_d_nonneg(3) assms)
  have tne: "normalized_time m s ms \<noteq> []" by (simp add: normalized_time_def)
  have "hd (normalized_time m s ms) = hd (format_d 2 m)"
    "last (normalized_time m s ms) = last (format_d 3 ms)"
    using format_d_nonneg(1)[OF assms(1)] format_d_nonneg(1)[OF assms(4)]
    by (simp_all add: normalized_time_def)
  moreover have "is_decimal (hd (format_d 2 m))"
    using format_d_nonneg(1,2)[OF assms(1), of 2] hd_in_set by blast
  moreover have "is_decimal (last (format_d 3 ms))"
    using format_d_nonneg(1,2)[OF assms(4), of 3] last_in_set by blast
  ultimately have st: "strip (normalized_time m s ms) = normalized_time m s ms"
    using tne is_decimal_not_py_space by (intro strip_id) auto
  have "TimeEntry_normalize (normalized_time m s ms) = normalized_time m s ms"
    using tne p unfolding TimeEntry_normalize_def st Let_def by simp
  with p show ?thesis by simp
qed

theorem normalized_time_round_trip_witness:
  "parse_time_input ''07:04.123'' = Inr (7, 4, 123)
   \<and> TimeEntry_normalize ''07:04.123'' = ''07:04.123''"
proof -
  have "normalized_time 7 4 123 = ''07:04.123''"
    by (simp add: normalized_time_def format_d_def str_nat.simps digit_char_def Let_def)
  then show ?thesis using normalized_time_round_trip[of 7 4 123] by simp
qed

section \<open>Properties of the conversion to seconds\<close>

lemma bound_big: "1000 < float_overflow_bound"
  by (simp add: float_overflow_bound_def)

lemma big: "float_overflow_bound \<le> 10 ^ 315 * 60"
  by (simp add: float_overflow_bound_def)

lemma digits_value_append_zeros:
  "digits_value (ds @ replicate k (CHR ''0'')) = digits_value ds * 10 ^ k"
proof (induction k)
  case 0 then show ?case by simp
next
  case (Suc k)
  have "ds @ replicate (Suc k) (CHR ''0'') = (ds @ replicate k (CHR ''0'')) @ [CHR ''0'']"
    by (simp add: replicate_append_same)
  then have "digits_value (ds @ replicate (Suc k) (CHR ''0''))
      = 10 * digits_value (ds @ replicate k (CHR ''0'')) + digit_val (CHR ''0'')"
    by (simp only: digits_value_snoc)
  then show ?case using Suc by (simp add: digit_val_def code_point_simps)
qed

lemma digits_value_bound:
  "\<forall>c\<in>set ds. is_decimal c \<Longrightarrow> 0 \<le> digits_value ds \<and> digits_value ds < 10 ^ length ds"
proof (induction ds rule: rev_induct)
  case Nil then show ?case by (simp add: digits_value_def)
next
  case (snoc c ds)
  then have "0 \<le> digit_val c" "digit_val c \<le> 9"
    by (auto simp: is_decimal_def digit_val_def)
  then show ?case using snoc by (simp add: digits_value_snoc)
qed

lemma py_int_abs_bound:
  assumes "py_int s = Inr v"
  shows "\<bar>v\<bar> < 10 ^ length s"
proof -
  define t where "t = dropWhile c_isspace (map int_transform s)"
  define t2 where "t2 = (case t of c # cs \<Rightarrow> (if c = CHR ''+'' \<or> c = CHR ''-'' then cs else t) | [] \<Rightarrow> t)"
  define body where "body = takeWhile int_body_char t2"
  define ds where "ds = filter is_decimal body"
  have "length ds \<le> length body" by (simp add: ds_def)
  also have "\<dots> \<le> length t2" by (simp add: body_def length_takeWhile_le)
  also have "\<dots> \<le> length t" by (auto simp: t2_def split: list.splits)
  also have "\<dots> \<le> length s" by (simp add: t_def length_dropWhile_le[THEN order_trans])
  finally have len: "length ds \<le> length s" .
  have v: "v = digits_value ds \<or> v = - digits_value ds"
    using assms unfolding py_int_def Let_def t_def[symmetric] t2_def[symmetric]
      body_def[symmetric] ds_def[symmetric]
    by (auto split: if_splits)
  have b: "0 \<le> digits_value ds \<and> digits_value ds < 10 ^ length ds"
    by (rule digits_value_bound) (simp add: ds_def)
  have p: "(10::int) ^ length ds \<le> 10 ^ length s"
    using len by (intro power_increasing) auto
  from v show ?thesis
  proof
    assume "v = digits_value ds" then show ?thesis using b p by linarith
  next
    assume "v = - digits_value ds" then show ?thesis using b p by linarith
  qed
qed

lemma py_int_short_bound:
  assumes "py_int s = Inr v" "length s \<le> 3"
  shows "\<bar>v\<bar> < 1000"
proof -
  have "(10::int) ^ length s \<le> 10 ^ 3" using assms(2) by (intro power_increasing) auto
  moreover have "(10::int) ^ 3 = 1000" by simp
  ultimately show ?thesis using py_int_abs_bound[OF assms(1)] by linarith
qed

lemma ms_field_bound: "ms_field s = Inr v \<Longrightarrow> \<bar>v\<bar> < 1000"
  unfolding ms_field_def by (erule py_int_short_bound) (simp add: slice_def)

lemma sec_and_ms_bound: "sec_and_ms t = Inr (s, ms) \<Longrightarrow> \<bar>ms\<bar> < 1000"
  by (auto simp: sec_and_ms_def ebind_Inr_iff dest: ms_field_bound)

lemma formatted_parse_ms_bound: "formatted_parse t = Inr (m, s, ms) \<Longrightarrow> \<bar>ms\<bar> < 1000"
  by (auto simp: formatted_parse_def ebind_Inr_iff check_seconds_Inr
      dest: sec_and_ms_bound split: if_splits list.splits)

lemma digit_parse_ms_bound:
  assumes "digit_parse t = Inr (m, s, ms)" shows "\<bar>ms\<bar> < 1000"
proof -
  from assms obtain ds where "py_int (slice 3 6 ds) = Inr ms"
    by (auto simp: digit_parse_def Let_def ebind_Inr_iff check_seconds_Inr split: if_splits)
  then show ?thesis by (rule py_int_short_bound) (simp add: slice_def)
qed

lemma parse_time_input_ms_bound: "parse_time_input t = Inr (m, s, ms) \<Longrightarrow> \<bar>ms\<bar> < 1000"
  by (auto simp: parse_time_input_def Let_def
      dest: digit_parse_ms_bound formatted_parse_ms_bound
      split: if_splits sum.splits)

text \<open>
  C10 (as amended). When the parser raises \<^verbatim>\<open>ValueError\<close>, \<open>time_to_seconds\<close> returns
  0.0; when the parser returns \<open>(m, s, ms)\<close> and \<open>m * 60 + s\<close> is within the range of
  a double, it returns \<open>m * 60 + s + ms / 1000\<close>; in both cases it does not raise.
\<close>

theorem time_to_seconds_cases:
  "(parse_time_input t = Inl ValueError \<longrightarrow> time_to_seconds t = Inr 0)
   \<and> (\<forall>m s ms. parse_time_input t = Inr (m, s, ms) \<and> \<bar>m * 60 + s\<bar> < float_overflow_bound
        \<longrightarrow> time_to_seconds t = Inr (real_of_int (m * 60 + s) + real_of_int ms / 1000))"
proof (cases "parse_time_input t")
  case (Inl e)
  then have "e = ValueError" by (rule parse_time_input_error)
  then show ?thesis using Inl by (simp add: time_to_seconds_def)
next
  case (Inr r)
  obtain m s ms where r: "r = (m, s, ms)" by (cases r) auto
  have "\<bar>ms\<bar> < 1000" using Inr r parse_time_input_ms_bound by blast
  then have ms: "float_of_int ms = Inr (real_of_int ms)"
    using bound_big by (simp add: float_of_int_def)
  show ?thesis
    using Inr r ms by (auto simp: time_to_seconds_def ebind_def float_of_int_def split: if_splits)
qed

theorem time_to_seconds_cases_witness:
  "time_to_seconds ''abc'' = Inr 0 \<and> time_to_seconds ''704'' = Inr 424"
proof -
  have a: "parse_time_input ''abc'' = Inl ValueError" by (simp add: eval_defs)
  have b: "parse_time_input ''704'' = Inr (7, 4, 0) \<and> \<bar>7 * 60 + 4\<bar> < float_overflow_bound"
    by (simp add: eval_defs float_overflow_bound_def)
  note c = time_to_seconds_cases[of "''abc''"]
  note d = time_to_seconds_cases[of "''704''"]
  have "time_to_seconds ''abc'' = Inr 0" by (rule mp[OF conjunct1[OF c] a])
  moreover have "time_to_seconds ''704'' = Inr (real_of_int (7 * 60 + 4) + real_of_int 0 / 1000)"
    by (rule mp[OF spec[OF spec[OF spec[OF conjunct2[OF d]]]] b])
  ultimately show ?thesis by simp
qed

lemma digit_parse_long:
  assumes dec: "\<forall>c\<in>set ds. is_decimal c" and len: "6 < length ds"
  shows "digit_parse ds =
    (let extra_digits = take (length ds - 6) ds; core_digits = drop (length ds - 6) ds
     in check_seconds (digits_value extra_digits * 10 + digits_value [core_digits ! 0],
          digits_value (slice 1 3 core_digits), digits_value (slice 3 6 core_digits)))"
proof -
  define extra where "extra = take (length ds - 6) ds"
  define core where "core = drop (length ds - 6) ds"
  have f: "filter py_isdigit ds = ds" using dec by (simp add: py_isdigit_def)
  have clen: "length core = 6" using len by (simp add: core_def)
  have cdec: "\<forall>c\<in>set core. is_decimal c" using dec by (auto simp: core_def dest: in_set_dropD)
  have e: "py_int extra = Inr (digits_value extra)"
  proof (rule py_int_decimal)
    show "extra \<noteq> []" using len by (auto simp: extra_def)
    show "\<forall>c\<in>set extra. is_decimal c" using dec by (auto simp: extra_def dest: in_set_takeD)
  qed
  have i0: "py_index core 0 = Inr (core ! 0)" using clen by (simp add: py_index_def)
  have "is_decimal (core ! 0)" using cdec clen by (metis nth_mem zero_less_numeral)
  then have m: "py_int [core ! 0] = Inr (digits_value [core ! 0])"
    by (intro py_int_decimal) auto
  have s: "py_int (slice 1 3 core) = Inr (digits_value (slice 1 3 core))"
  proof (rule py_int_decimal)
    show "slice 1 3 core \<noteq> []" using clen by (auto simp: slice_def)
    show "\<forall>c\<in>set (slice 1 3 core). is_decimal c" by (rule slice_decimal[OF cdec])
  qed
  have ms: "py_int (slice 3 6 core) = Inr (digits_value (slice 3 6 core))"
  proof (rule py_int_decimal)
    show "slice 3 6 core \<noteq> []" using clen by (auto simp: slice_def)
    show "\<forall>c\<in>set (slice 3 6 core). is_decimal c" by (rule slice_decimal[OF cdec])
  qed
  have ne: "ds \<noteq> []" using len by auto
  show ?thesis
    unfolding digit_parse_def Let_def f extra_def[symmetric] core_def[symmetric]
    using ne len s by (simp add: e i0 m ms ebind_def)
qed

lemma parse_huge:
  "parse_time_input (CHR ''1'' # replicate 320 (CHR ''0'')) = Inr (10 ^ 315, 0, 0)"
proof -
  define ds where "ds = CHR ''1'' # replicate 320 (CHR ''0'')"
  have dec: "\<forall>c\<in>set ds. is_decimal c" by (auto simp: ds_def is_decimal_def code_point_def)
  have len: "length ds = 321" by (simp add: ds_def)
  have st: "strip ds = ds"
    by (rule strip_id) (simp_all add: ds_def py_isspace_def code_point_def Let_def)
  have np: "CHR '':'' \<notin> set ds" "CHR ''.'' \<notin> set ds" by (simp_all add: ds_def)
  have ex: "take (length ds - 6) ds = [CHR ''1''] @ replicate 314 (CHR ''0'')"
    by (simp add: ds_def)
  have co: "drop (length ds - 6) ds = replicate 6 (CHR ''0'')"
    by (simp add: ds_def)
  have v: "digits_value ([CHR ''1''] @ replicate 314 (CHR ''0'')) = 10 ^ 314"
    unfolding digits_value_append_zeros by (simp add: digits_value_def digit_val_def code_point_def)
  have z: "digits_value [replicate 6 (CHR ''0'') ! 0] = 0"
    "digits_value (slice 1 3 (replicate 6 (CHR ''0''))) = 0"
    "digits_value (slice 3 6 (replicate 6 (CHR ''0''))) = 0"
    by (simp_all add: digits_value_zeros slice_def)
  have "digit_parse ds = check_seconds (10 ^ 314 * 10 + 0, 0, 0)"
    using digit_parse_long[OF dec] len unfolding Let_def ex co v z by simp
  then have "digit_parse ds = Inr (10 ^ 315, 0, 0)"
    by (simp add: check_seconds_def)
  then show ?thesis
    using np st unfolding ds_def[symmetric] by (simp add: parse_time_input_def)
qed

text \<open>
  The claim that \<^verbatim>\<open>time_to_seconds\<close> never raises fails on a digit string that parses
  to more minutes than a double holds: 1 followed by 320 zeros parses to
  \<open>10^315\<close> minutes, and the conversion to float raises \<^verbatim>\<open>OverflowError\<close>, which
  \<^verbatim>\<open>except ValueError\<close> does not catch.
\<close>

theorem time_to_seconds_overflow_counterexample: "time_to_seconds (CHR ''1'' # replicate 320 (CHR ''0'')) = Inl OverflowError"
  using big by (simp add: time_to_seconds_def parse_huge float_of_int_def ebind_def bound_big
      float_overflow_bound_def)

section \<open>The cascading deletes\<close>

lemma set_entry_ids_of_regatta:
  "set (entry_ids_of_regatta db rid)
     = {entry_id e | e. e \<in> set (entries db) \<and> entry_event_id e \<in> set (event_ids_of_regatta db rid)}"
  by (auto simp: entry_ids_of_regatta_def event_ids_of_regatta_def)

lemma set_entry_ids_of_event:
  "set (entry_ids_of_event db eid)
     = {entry_id e | e. e \<in> set (entries db) \<and> entry_event_id e = eid}"
  by (auto simp: entry_ids_of_event_def)

lemma regatta_steps:
  fixes db rid
  defines "s1 \<equiv> delete_results (\<lambda>r. result_entry_id r \<in> set (entry_ids_of_regatta db rid)) db"
  defines "s2 \<equiv> delete_entries (\<lambda>e. entry_event_id e \<in> set (event_ids_of_regatta (fst s1) rid)) (fst s1)"
  defines "s3 \<equiv> delete_events (\<lambda>ev. event_regatta_id ev = rid) (fst s2)"
  defines "s4 \<equiv> delete_regattas (\<lambda>r. regatta_id r = rid) (fst s3)"
  shows "fst s4 = regatta_cascade db rid"
    and "snd s1 = length (filter (\<lambda>r. result_entry_id r \<in> set (entry_ids_of_regatta db rid)) (results db))"
    and "snd s2 = length (filter (\<lambda>e. entry_event_id e \<in> set (event_ids_of_regatta db rid)) (entries db))"
    and "snd s3 = length (filter (\<lambda>ev. event_regatta_id ev = rid) (events db))"
    and "snd s4 = length (filter (\<lambda>r. regatta_id r = rid) (regattas db))"
proof -
  show "snd s1 = length (filter (\<lambda>r. result_entry_id r \<in> set (entry_ids_of_regatta db rid)) (results db))"
    by (simp add: s1_def delete_results_def)
  show "snd s2 = length (filter (\<lambda>e. entry_event_id e \<in> set (event_ids_of_regatta db rid)) (entries db))"
    by (simp add: s2_def s1_def delete_results_def delete_entries_def Let_def event_ids_of_regatta_def)
  show "snd s3 = length (filter (\<lambda>ev. event_regatta_id ev = rid) (events db))"
    by (simp add: s3_def s2_def s1_def delete_results_def delete_entries_def delete_events_def Let_def)
  show "snd s4 = length (filter (\<lambda>r. regatta_id r = rid) (regattas db))"
    by (simp add: s4_def s3_def s2_def s1_def delete_results_def delete_entries_def
        delete_events_def delete_regattas_def Let_def)
  show "fst s4 = regatta_cascade db rid"
    unfolding regatta_cascade_def s4_def s3_def s2_def s1_def
    apply (rule database.equality)
    apply (simp_all add: delete_results_def delete_entries_def
        delete_events_def delete_regattas_def Let_def)
    apply (auto intro!: filter_cong simp: set_entry_ids_of_regatta event_ids_of_regatta_def)
    done
qed

lemma event_steps:
  fixes db eid
  defines "s1 \<equiv> delete_results (\<lambda>r. result_entry_id r \<in> set (entry_ids_of_event db eid)) db"
  defines "s2 \<equiv> delete_entries (\<lambda>e. entry_event_id e = eid) (fst s1)"
  defines "s3 \<equiv> delete_events (\<lambda>ev. event_id ev = eid) (fst s2)"
  shows "fst s3 = event_cascade db eid"
    and "snd s1 = length (filter (\<lambda>r. result_entry_id r \<in> set (entry_ids_of_event db eid)) (results db))"
    and "snd s2 = length (filter (\<lambda>e. entry_event_id e = eid) (entries db))"
    and "snd s3 = length (filter (\<lambda>ev. event_id ev = eid) (events db))"
proof -
  show "snd s1 = length (filter (\<lambda>r. result_entry_id r \<in> set (entry_ids_of_event db eid)) (results db))"
    by (simp add: s1_def delete_results_def)
  show "snd s2 = length (filter (\<lambda>e. entry_event_id e = eid) (entries db))"
    by (simp add: s2_def s1_def delete_results_def delete_entries_def Let_def)
  show "snd s3 = length (filter (\<lambda>ev. event_id ev = eid) (events db))"
    by (simp add: s3_def s2_def s1_def delete_results_def delete_entries_def delete_events_def Let_def)
  show "fst s3 = event_cascade db eid"
    unfolding event_cascade_def s3_def s2_def s1_def
    apply (rule database.equality)
    apply (simp_all add: delete_results_def delete_entries_def delete_events_def Let_def)
    apply (auto intro!: filter_cong simp: set_entry_ids_of_event)
    done
qed

lemmas action_defs = try_except_def sbind_def execute_def commit_def rollback_def
  return_def raise_def begin_transaction_def

lemma delete_regatta_no_faults:
  "delete_regatta no_faults rid m =
    (Inr (length (filter (\<lambda>r. result_entry_id r \<in> set (entry_ids_of_regatta (current (conn m)) rid))
                    (results (current (conn m)))),
          length (filter (\<lambda>e. entry_event_id e \<in> set (event_ids_of_regatta (current (conn m)) rid))
                    (entries (current (conn m)))),
          length (filter (\<lambda>ev. event_regatta_id ev = rid) (events (current (conn m)))),
          length (filter (\<lambda>r. regatta_id r = rid) (regattas (current (conn m))))),
     m\<lparr>conn := \<lparr>committed = regatta_cascade (current (conn m)) rid,
                 current = regatta_cascade (current (conn m)) rid,
                 in_transaction = False\<rparr>\<rparr>)"
  unfolding delete_regatta_def no_faults_def action_defs
  by (simp add: case_prod_beta Let_def regatta_steps)

lemma delete_event_no_faults:
  "delete_event no_faults eid m =
    (Inr (length (filter (\<lambda>r. result_entry_id r \<in> set (entry_ids_of_event (current (conn m)) eid))
                    (results (current (conn m)))),
          length (filter (\<lambda>e. entry_event_id e = eid) (entries (current (conn m)))),
          length (filter (\<lambda>ev. event_id ev = eid) (events (current (conn m))))),
     m\<lparr>conn := \<lparr>committed = event_cascade (current (conn m)) eid,
                 current = event_cascade (current (conn m)) eid,
                 in_transaction = False\<rparr>\<rparr>)"
  unfolding delete_event_def no_faults_def action_defs
  by (simp add: case_prod_beta Let_def event_steps)

text \<open>
  C6. Without a failing step, \<open>delete_regatta\<close> leaves exactly the database of the
  cascade (committed): the results whose entry belongs to an event of the regatta, the
  entries of those events, the events of the regatta and the regatta row are deleted
  and counted in the returned quadruple; the rows of other regattas and the tables
  schools, teams, conference_affiliations and school_participations are unchanged, and
  so are the caches. \<open>delete_event\<close> does the same for one event.
\<close>

theorem delete_cascade_frame:
  "delete_regatta no_faults rid m =
    (Inr (length (filter (\<lambda>r. result_entry_id r \<in> set (entry_ids_of_regatta (current (conn m)) rid))
                    (results (current (conn m)))),
          length (filter (\<lambda>e. entry_event_id e \<in> set (event_ids_of_regatta (current (conn m)) rid))
                    (entries (current (conn m)))),
          length (filter (\<lambda>ev. event_regatta_id ev = rid) (events (current (conn m)))),
          length (filter (\<lambda>r. regatta_id r = rid) (regattas (current (conn m))))),
     m\<lparr>conn := \<lparr>committed = regatta_cascade (current (conn m)) rid,
                 current = regatta_cascade (current (conn m)) rid,
                 in_transaction = False\<rparr>\<rparr>)
   \<and> delete_event no_faults eid m =
    (Inr (length (filter (\<lambda>r. result_entry_id r \<in> set (entry_ids_of_event (current (conn m)) eid))
                    (results (current (conn m)))),
          length (filter (\<lambda>e. entry_event_id e = eid) (entries (current (conn m)))),
          length (filter (\<lambda>ev. event_id ev = eid) (events (current (conn m))))),
     m\<lparr>conn := \<lparr>committed = event_cascade (current (conn m)) eid,
                 current = event_cascade (current (conn m)) eid,
                 in_transaction = False\<rparr>\<rparr>)
   \<and> set (entry_ids_of_regatta db rid)
       = {entry_id e | e. e \<in> set (entries db) \<and> entry_event_id e \<in> set (event_ids_of_regatta db rid)}
   \<and> set (event_ids_of_regatta db rid)
       = {event_id ev | ev. ev \<in> set (events db) \<and> event_regatta_id ev = rid}
   \<and> set (entry_ids_of_event db eid)
       = {entry_id e | e. e \<in> set (entries db) \<and> entry_event_id e = eid}
   \<and> schools (regatta_cascade db rid) = schools db \<and> teams (regatta_cascade db rid) = teams db
   \<and> conference_affiliations (regatta_cascade db rid) = conference_affiliations db
   \<and> school_participations (regatta_cascade db rid) = school_participations db
   \<and> schools (event_cascade db eid) = schools db \<and> teams (event_cascade db eid) = teams db
   \<and> conference_affiliations (event_cascade db eid) = conference_affiliations db
   \<and> school_participations (event_cascade db eid) = school_participations db
   \<and> regattas (event_cascade db eid) = regattas db"
proof -
  have "set (event_ids_of_regatta db rid)
       = {event_id ev | ev. ev \<in> set (events db) \<and> event_regatta_id ev = rid}"
    by (auto simp: event_ids_of_regatta_def)
  then show ?thesis
    by (simp add: delete_regatta_no_faults delete_event_no_faults set_entry_ids_of_regatta
        set_entry_ids_of_event regatta_cascade_def event_cascade_def)
qed

lemma le4_cases: "(k::nat) \<le> 4 \<longleftrightarrow> k = 0 \<or> k = 1 \<or> k = 2 \<or> k = 3 \<or> k = 4"
  by arith

lemma le3_cases: "(k::nat) \<le> 3 \<longleftrightarrow> k = 0 \<or> k = 1 \<or> k = 2 \<or> k = 3"
  by arith

lemma rolled_back:
  "c\<lparr>in_transaction := True, current := db, current := committed c, in_transaction := False\<rparr>
       = c\<lparr>current := committed c, in_transaction := False\<rparr>"
  "c\<lparr>in_transaction := True, current := committed c, in_transaction := False\<rparr>
       = c\<lparr>current := committed c, in_transaction := False\<rparr>"
  by (cases c, simp)+

lemma nothing_pending:
  assumes "current c = committed c"
  shows "c\<lparr>current := committed c, in_transaction := False\<rparr> = c\<lparr>in_transaction := False\<rparr>"
  using assms by (cases c) simp

lemma delete_regatta_fault:
  assumes first: "faults k = Some e" "k \<le> 4" "\<forall>j<k. faults j = None"
  shows "delete_regatta faults rid m
     = (Inl e, m\<lparr>conn := (conn m)\<lparr>current := committed (conn m), in_transaction := False\<rparr>\<rparr>)"
proof -
  from first(2) consider "k = 0" | "k = 1" | "k = 2" | "k = 3" | "k = 4"
    unfolding le4_cases by blast
  then show ?thesis
  proof cases
    case 1
    then show ?thesis using first(1)
      unfolding delete_regatta_def action_defs
      by (simp add: case_prod_beta Let_def rolled_back)
  next
    case 2
    then have "faults 0 = None" using first(3) by simp
    then show ?thesis using first(1) 2
      unfolding delete_regatta_def action_defs
      by (simp add: case_prod_beta Let_def rolled_back)
  next
    case 3
    then have "faults 0 = None" "faults 1 = None" using first(3) by simp_all
    then show ?thesis using first(1) 3
      unfolding delete_regatta_def action_defs
      by (simp add: case_prod_beta Let_def rolled_back)
  next
    case 4
    then have "faults 0 = None" "faults 1 = None" "faults 2 = None" using first(3) by simp_all
    then show ?thesis using first(1) 4
      unfolding delete_regatta_def action_defs
      by (simp add: case_prod_beta Let_def rolled_back)
  next
    case 5
    then have "faults 0 = None" "faults 1 = None" "faults 2 = None" "faults 3 = None"
      using first(3) by simp_all
    then show ?thesis using first(1) 5
      unfolding delete_regatta_def action_defs
      by (simp add: case_prod_beta Let_def rolled_back)
  qed
qed

lemma delete_event_fault:
  assumes first: "faults k = Some e" "k \<le> 3" "\<forall>j<k. faults j = None"
  shows "delete_event faults eid m
     = (Inl e, m\<lparr>conn := (conn m)\<lparr>current := committed (conn m), in_transaction := False\<rparr>\<rparr>)"
proof -
  from first(2) consider "k = 0" | "k = 1" | "k = 2" | "k = 3"
    unfolding le3_cases by blast
  then show ?thesis
  proof cases
    case 1
    then show ?thesis using first(1)
      unfolding delete_event_def action_defs
      by (simp add: case_prod_beta Let_def rolled_back)
  next
    case 2
    then have "faults 0 = None" using first(3) by simp
    then show ?thesis using first(1) 2
      unfolding delete_event_def action_defs
      by (simp add: case_prod_beta Let_def rolled_back)
  next
    case 3
    then have "faults 0 = None" "faults 1 = None" using first(3) by simp_all
    then show ?thesis using first(1) 3
      unfolding delete_event_def action_defs
      by (simp add: case_prod_beta Let_def rolled_back)
  next
    case 4
    then have "faults 0 = None" "faults 1 = None" "faults 2 = None" using first(3) by simp_all
    then show ?thesis using first(1) 4
      unfolding delete_event_def action_defs
      by (simp add: case_prod_beta Let_def rolled_back)
  qed
qed

lemma first_fault:
  fixes faults :: "nat \<Rightarrow> py_error option"
  assumes "\<exists>k\<le>n. faults k \<noteq> None"
  obtains k e where "k \<le> n" "faults k = Some e" "\<forall>j<k. faults j = None"
proof -
  define k where "k = (LEAST k. faults k \<noteq> None)"
  from assms obtain k0 where k0: "k0 \<le> n" "faults k0 \<noteq> None" by blast
  have a: "faults k \<noteq> None"
    unfolding k_def by (rule LeastI[where P = "\<lambda>k. faults k \<noteq> None", OF k0(2)])
  have b: "k \<le> k0"
    unfolding k_def by (rule Least_le[where P = "\<lambda>k. faults k \<noteq> None", OF k0(2)])
  have c: "\<forall>j<k. faults j = None"
  proof (intro allI impI)
    fix j assume "j < k"
    then have "\<not> (faults j \<noteq> None)"
      unfolding k_def by (rule not_less_Least[where P = "\<lambda>k. faults k \<noteq> None"])
    then show "faults j = None" by simp
  qed
  from a obtain e where e: "faults k = Some e" by auto
  have "k \<le> n" using b k0(1) by (rule order_trans)
  then show ?thesis using e c by (rule that)
qed

text \<open>
  C8. When one of the steps of \<open>delete_regatta\<close> or \<open>delete_event\<close> (a \<^verbatim>\<open>DELETE\<close> or
  the commit) raises, the call raises that same exception after a rollback: the
  committed database and the caches are as before the call, so none of the deletions of
  the call persists, and the current database of the connection is the committed one
  again, with no transaction open. When no uncommitted change was pending before the
  call, the database, current and committed, is therefore exactly as it was before the
  call; changes that an earlier operation left uncommitted are discarded by the rollback
  too.
\<close>

theorem delete_rollback_on_failure:
  "(\<forall>k e. k \<le> 4 \<and> faults k = Some e \<and> (\<forall>j<k. faults j = None)
      \<longrightarrow> delete_regatta faults rid m
            = (Inl e, m\<lparr>conn := (conn m)\<lparr>current := committed (conn m),
                                         in_transaction := False\<rparr>\<rparr>))
   \<and> (\<forall>k e. k \<le> 3 \<and> faults k = Some e \<and> (\<forall>j<k. faults j = None)
        \<longrightarrow> delete_event faults eid m
              = (Inl e, m\<lparr>conn := (conn m)\<lparr>current := committed (conn m),
                                           in_transaction := False\<rparr>\<rparr>))
   \<and> ((\<exists>k\<le>4. faults k \<noteq> None)
        \<longrightarrow> (\<exists>e. delete_regatta faults rid m
              = (Inl e, m\<lparr>conn := (conn m)\<lparr>current := committed (conn m),
                                           in_transaction := False\<rparr>\<rparr>)))
   \<and> ((\<exists>k\<le>3. faults k \<noteq> None)
        \<longrightarrow> (\<exists>e. delete_event faults eid m
              = (Inl e, m\<lparr>conn := (conn m)\<lparr>current := committed (conn m),
                                           in_transaction := False\<rparr>\<rparr>)))
   \<and> (current (conn m) = committed (conn m) \<longrightarrow>
        (\<forall>k e. k \<le> 4 \<and> faults k = Some e \<and> (\<forall>j<k. faults j = None)
            \<longrightarrow> delete_regatta faults rid m
                  = (Inl e, m\<lparr>conn := (conn m)\<lparr>in_transaction := False\<rparr>\<rparr>))
        \<and> (\<forall>k e. k \<le> 3 \<and> faults k = Some e \<and> (\<forall>j<k. faults j = None)
            \<longrightarrow> delete_event faults eid m
                  = (Inl e, m\<lparr>conn := (conn m)\<lparr>in_transaction := False\<rparr>\<rparr>))
        \<and> ((\<exists>k\<le>4. faults k \<noteq> None)
            \<longrightarrow> (\<exists>e. delete_regatta faults rid m
                  = (Inl e, m\<lparr>conn := (conn m)\<lparr>in_transaction := False\<rparr>\<rparr>)))
        \<and> ((\<exists>k\<le>3. faults k \<noteq> None)
            \<longrightarrow> (\<exists>e. delete_event faults eid m
                  = (Inl e, m\<lparr>conn := (conn m)\<lparr>in_transaction := False\<rparr>\<rparr>))))"
proof -
  let ?undone = "m\<lparr>conn := (conn m)\<lparr>current := committed (conn m), in_transaction := False\<rparr>\<rparr>"
  have a: "\<forall>k e. k \<le> 4 \<and> faults k = Some e \<and> (\<forall>j<k. faults j = None)
      \<longrightarrow> delete_regatta faults rid m = (Inl e, ?undone)"
    using delete_regatta_fault by blast
  have b: "\<forall>k e. k \<le> 3 \<and> faults k = Some e \<and> (\<forall>j<k. faults j = None)
      \<longrightarrow> delete_event faults eid m = (Inl e, ?undone)"
    using delete_event_fault by blast
  have c: "(\<exists>k\<le>4. faults k \<noteq> None) \<longrightarrow> (\<exists>e. delete_regatta faults rid m = (Inl e, ?undone))"
  proof
    assume "\<exists>k\<le>4. faults k \<noteq> None"
    then obtain k e where "k \<le> 4" "faults k = Some e" "\<forall>j<k. faults j = None"
      by (rule first_fault)
    then show "\<exists>e. delete_regatta faults rid m = (Inl e, ?undone)"
      using delete_regatta_fault by blast
  qed
  have d: "(\<exists>k\<le>3. faults k \<noteq> None) \<longrightarrow> (\<exists>e. delete_event faults eid m = (Inl e, ?undone))"
  proof
    assume "\<exists>k\<le>3. faults k \<noteq> None"
    then obtain k e where "k \<le> 3" "faults k = Some e" "\<forall>j<k. faults j = None"
      by (rule first_fault)
    then show "\<exists>e. delete_event faults eid m = (Inl e, ?undone)"
      using delete_event_fault by blast
  qed
  have e: "current (conn m) = committed (conn m)
      \<Longrightarrow> ?undone = m\<lparr>conn := (conn m)\<lparr>in_transaction := False\<rparr>\<rparr>"
    by (simp add: nothing_pending)
  show ?thesis
  proof (intro conjI impI)
    show "\<forall>k e. k \<le> 4 \<and> faults k = Some e \<and> (\<forall>j<k. faults j = None)
      \<longrightarrow> delete_regatta faults rid m = (Inl e, ?undone)" by (rule a)
    show "\<forall>k e. k \<le> 3 \<and> faults k = Some e \<and> (\<forall>j<k. faults j = None)
      \<longrightarrow> delete_event faults eid m = (Inl e, ?undone)" by (rule b)
    show "\<exists>e. delete_regatta faults rid m = (Inl e, ?undone)" if "\<exists>k\<le>4. faults k \<noteq> None"
      using c that by (rule mp)
    show "\<exists>e. delete_event faults eid m = (Inl e, ?undone)" if "\<exists>k\<le>3. faults k \<noteq> None"
      using d that by (rule mp)
  next
    assume cur: "current (conn m) = committed (conn m)"
    show "\<forall>k e. k \<le> 4 \<and> faults k = Some e \<and> (\<forall>j<k. faults j = None)
      \<longrightarrow> delete_regatta faults rid m = (Inl e, m\<lparr>conn := (conn m)\<lparr>in_transaction := False\<rparr>\<rparr>)"
      using a unfolding e[OF cur] .
  next
    assume cur: "current (conn m) = committed (conn m)"
    show "\<forall>k e. k \<le> 3 \<and> faults k = Some e \<and> (\<forall>j<k. faults j = None)
      \<longrightarrow> delete_event faults eid m = (Inl e, m\<lparr>conn := (conn m)\<lparr>in_transaction := False\<rparr>\<rparr>)"
      using b unfolding e[OF cur] .
  next
    assume cur: "current (conn m) = committed (conn m)" and f: "\<exists>k\<le>4. faults k \<noteq> None"
    show "\<exists>e. delete_regatta faults rid m = (Inl e, m\<lparr>conn := (conn m)\<lparr>in_transaction := False\<rparr>\<rparr>)"
      using mp[OF c f] unfolding e[OF cur] .
  next
    assume cur: "current (conn m) = committed (conn m)" and f: "\<exists>k\<le>3. faults k \<noteq> None"
    show "\<exists>e. delete_event faults eid m = (Inl e, m\<lparr>conn := (conn m)\<lparr>in_transaction := False\<rparr>\<rparr>)"
      using mp[OF d f] unfolding e[OF cur] .
  qed
qed

theorem delete_rollback_on_failure_witness:
  "delete_regatta (\<lambda>k. if k = 2 then Some OperationalError else None) 1 example_manager
     = (Inl OperationalError, example_manager)
   \<and> delete_event (\<lambda>k. if k = 3 then Some OperationalError else None) 1 example_manager
     = (Inl OperationalError, example_manager)"
proof -
  have cur: "current (conn example_manager) = committed (conn example_manager)"
    by (simp add: example_manager_def)
  have same: "example_manager\<lparr>conn := (conn example_manager)\<lparr>in_transaction := False\<rparr>\<rparr>
      = example_manager"
    by (simp add: example_manager_def)
  note t = delete_rollback_on_failure[where faults = "\<lambda>k. if k = 2 then Some OperationalError else None"
      and rid = 1 and eid = 1 and m = example_manager]
  note t5 = mp[OF conjunct2[OF conjunct2[OF conjunct2[OF conjunct2[OF t]]]] cur]
  have a: "(2::nat) \<le> 4 \<and> (if (2::nat) = 2 then Some OperationalError else None) = Some OperationalError
      \<and> (\<forall>j<2::nat. (if j = 2 then Some OperationalError else None) = None)"
    by simp
  have r: "delete_regatta (\<lambda>k. if k = 2 then Some OperationalError else None) 1 example_manager
      = (Inl OperationalError, example_manager\<lparr>conn := (conn example_manager)\<lparr>in_transaction := False\<rparr>\<rparr>)"
    using conjunct1[OF t5, THEN spec, THEN spec, THEN mp, of 2 OperationalError] a by simp
  note u = delete_rollback_on_failure[where faults = "\<lambda>k. if k = 3 then Some OperationalError else None"
      and rid = 1 and eid = 1 and m = example_manager]
  note u5 = mp[OF conjunct2[OF conjunct2[OF conjunct2[OF conjunct2[OF u]]]] cur]
  have b: "(3::nat) \<le> 3 \<and> (if (3::nat) = 3 then Some OperationalError else None) = Some OperationalError
      \<and> (\<forall>j<3::nat. (if j = 3 then Some OperationalError else None) = None)"
    by simp
  have e: "delete_event (\<lambda>k. if k = 3 then Some OperationalError else None) 1 example_manager
      = (Inl OperationalError, example_manager\<lparr>conn := (conn example_manager)\<lparr>in_transaction := False\<rparr>\<rparr>)"
    using conjunct1[OF conjunct2[OF u5], THEN spec, THEN spec, THEN mp, of 3 OperationalError] b by simp
  show ?thesis using r e unfolding same by simp
qed

text \<open>
  The claim as it was stated fails on a manager with an uncommitted change: after an
  \<open>add_result\<close> whose commit failed, the inserted result row is in the current database;
  a \<open>delete_regatta\<close> whose first step raises re-raises the exception and the result
  row is gone, so the database is not as it was before the call.
\<close>

theorem delete_rollback_discards_pending_counterexample:
  "length (results (current (conn example_pending_manager))) = 1
   \<and> fst (delete_regatta (\<lambda>k. if k = 0 then Some OperationalError else None) 1
            example_pending_manager) = Inl OperationalError
   \<and> length (results (current (conn (snd
        (delete_regatta (\<lambda>k. if k = 0 then Some OperationalError else None) 1
           example_pending_manager))))) = 0
   \<and> current (conn (snd
        (delete_regatta (\<lambda>k. if k = 0 then Some OperationalError else None) 1
           example_pending_manager))) \<noteq> current (conn example_pending_manager)"
proof -
  have p: "length (results (current (conn example_pending_manager))) = 1"
    "committed (conn example_pending_manager) = example_database"
    by (simp_all add: example_pending_manager_def add_result_def insert_result_def
        example_manager_def example_database_def action_defs Let_def next_rowid_def)
  have r: "results example_database = []" by (simp add: example_database_def)
  have d: "delete_regatta (\<lambda>k. if k = 0 then Some OperationalError else None) 1
        example_pending_manager
      = (Inl OperationalError, example_pending_manager\<lparr>conn := (conn example_pending_manager)
           \<lparr>current := committed (conn example_pending_manager), in_transaction := False\<rparr>\<rparr>)"
    by (rule delete_regatta_fault[where k = 0]) simp_all
  have n: "current (conn example_pending_manager) \<noteq> example_database"
    using p(1) r by auto
  show ?thesis using p r n unfolding d by simp
qed

section \<open>Results of an entry\<close>

lemma fold_max_ge: "seq \<le> fold max ids (seq::int)"
  by (induction ids arbitrary: seq) (auto intro: order_trans[OF max.cobounded2])

lemma fold_max_ge_elem: "i \<in> set ids \<Longrightarrow> i \<le> fold max ids (seq::int)"
proof (induction ids arbitrary: seq)
  case Nil then show ?case by simp
next
  case (Cons a ids)
  show ?case
  proof (cases "i = a")
    case True
    have "a \<le> max a seq" by simp
    also have "\<dots> \<le> fold max ids (max a seq)" by (rule fold_max_ge)
    finally show ?thesis using True by simp
  next
    case False
    then show ?thesis using Cons by simp
  qed
qed

lemma next_rowid_fresh: "next_rowid ids seq \<notin> set ids"
proof
  assume "next_rowid ids seq \<in> set ids"
  then have "next_rowid ids seq \<le> fold max ids seq" by (rule fold_max_ge_elem)
  then show False by (simp add: next_rowid_def)
qed

lemma add_result_existing:
  assumes "eid \<in> set (map entry_id (entries (current (conn m))))"
  shows "add_result no_faults eid lane_no place elapsed margin m =
     (let db = current (conn m);
          rid = next_rowid (map result_id (results db)) (sqlite_sequence db ''results'');
          db' = db\<lparr>results := results db @
                        [\<lparr>result_id = rid, result_entry_id = eid, lane = lane_no, position = place,
                          elapsed_sec = elapsed, margin_sec = margin\<rparr>],
                    sqlite_sequence := (sqlite_sequence db)(''results'' := rid)\<rparr>
      in (Inr rid, m\<lparr>conn := \<lparr>committed = db', current = db', in_transaction = False\<rparr>\<rparr>))"
  using assms
  unfolding add_result_def no_faults_def action_defs insert_result_def
  by (simp add: Let_def)

lemma add_result_missing:
  assumes "eid \<notin> set (map entry_id (entries (current (conn m))))"
  shows "add_result no_faults eid lane_no place elapsed margin m =
     (Inl IntegrityError, m\<lparr>conn := (conn m)\<lparr>in_transaction := True\<rparr>\<rparr>)"
  using assms
  unfolding add_result_def no_faults_def action_defs insert_result_def
  by (simp add: Let_def)

text \<open>
  C3 (as amended). \<open>add_result\<close> for an existing entry always inserts exactly one new
  result row, with a rowid no result row had, whether or not the entry already has a
  result: the entry has one result row more than before and every other entry has the
  rows it had. For an entry that does not exist it raises \<^verbatim>\<open>IntegrityError\<close> and
  inserts nothing. An entry so has at most one result exactly as long as
  \<open>add_result\<close> is called at most once for it.
\<close>

theorem add_result_appends:
  "(eid \<in> set (map entry_id (entries (current (conn m))))
      \<longrightarrow> (\<exists>rid row m'. add_result no_faults eid lane_no place elapsed margin m = (Inr rid, m')
             \<and> row = \<lparr>result_id = rid, result_entry_id = eid, lane = lane_no, position = place,
                       elapsed_sec = elapsed, margin_sec = margin\<rparr>
             \<and> results (current (conn m')) = results (current (conn m)) @ [row]
             \<and> committed (conn m') = current (conn m')
             \<and> rid \<notin> set (map result_id (results (current (conn m))))
             \<and> length (filter (\<lambda>r. result_entry_id r = eid) (results (current (conn m'))))
                 = Suc (length (filter (\<lambda>r. result_entry_id r = eid) (results (current (conn m)))))
             \<and> (\<forall>other. other \<noteq> eid \<longrightarrow>
                   filter (\<lambda>r. result_entry_id r = other) (results (current (conn m')))
                   = filter (\<lambda>r. result_entry_id r = other) (results (current (conn m))))))
   \<and> (eid \<notin> set (map entry_id (entries (current (conn m))))
      \<longrightarrow> (\<exists>m'. add_result no_faults eid lane_no place elapsed margin m = (Inl IntegrityError, m')
             \<and> results (current (conn m')) = results (current (conn m))))"
proof (intro conjI impI)
  assume a: "eid \<in> set (map entry_id (entries (current (conn m))))"
  show "\<exists>rid row m'. add_result no_faults eid lane_no place elapsed margin m = (Inr rid, m')
             \<and> row = \<lparr>result_id = rid, result_entry_id = eid, lane = lane_no, position = place,
                       elapsed_sec = elapsed, margin_sec = margin\<rparr>
             \<and> results (current (conn m')) = results (current (conn m)) @ [row]
             \<and> committed (conn m') = current (conn m')
             \<and> rid \<notin> set (map result_id (results (current (conn m))))
             \<and> length (filter (\<lambda>r. result_entry_id r = eid) (results (current (conn m'))))
                 = Suc (length (filter (\<lambda>r. result_entry_id r = eid) (results (current (conn m)))))
             \<and> (\<forall>other. other \<noteq> eid \<longrightarrow>
                   filter (\<lambda>r. result_entry_id r = other) (results (current (conn m')))
                   = filter (\<lambda>r. result_entry_id r = other) (results (current (conn m))))"
    unfolding add_result_existing[OF a] Let_def
    using next_rowid_fresh[of "map result_id (results (current (conn m)))"
        "sqlite_sequence (current (conn m)) ''results''"]
    by simp
next
  assume a: "eid \<notin> set (map entry_id (entries (current (conn m))))"
  show "\<exists>m'. add_result no_faults eid lane_no place elapsed margin m = (Inl IntegrityError, m')
             \<and> results (current (conn m')) = results (current (conn m))"
    unfolding add_result_missing[OF a] by simp
qed

theorem add_result_appends_witness:
  "length (filter (\<lambda>r. result_entry_id r = 1)
     (results (current (conn (snd (add_result no_faults 1 None (Some 1) None None example_manager))))))
   = 1"
proof -
  have h: "1 \<in> set (map entry_id (entries (current (conn example_manager))))"
    by (simp add: example_manager_def example_database_def)
  have z: "filter (\<lambda>r. result_entry_id r = 1) (results (current (conn example_manager))) = []"
    by (simp add: example_manager_def example_database_def)
  from add_result_appends[of 1 example_manager None "Some 1" None None] h
  obtain rid row m' where
    r: "add_result no_faults 1 None (Some 1) None None example_manager = (Inr rid, m')"
    and l: "length (filter (\<lambda>r. result_entry_id r = 1) (results (current (conn m'))))
        = Suc (length (filter (\<lambda>r. result_entry_id r = 1) (results (current (conn example_manager)))))"
    by blast
  show ?thesis using l unfolding r z by simp
qed

text \<open>
  The claim that no two result rows share an entry fails: nothing in
  \<^verbatim>\<open>add_result\<close> or in the schema of \<^verbatim>\<open>results\<close> looks for an earlier result of the
  entry. Two calls for the entry 1 of the example database both succeed and leave two
  result rows of that entry.
\<close>

theorem add_result_second_row_counterexample:
  "fst (add_result no_faults 1 None (Some 1) None None example_manager) = Inr 2
   \<and> fst (add_result no_faults 1 None (Some 2) None None
            (snd (add_result no_faults 1 None (Some 1) None None example_manager))) = Inr 3
   \<and> map result_entry_id (results (current (conn (snd (add_result no_faults 1 None (Some 2) None None
            (snd (add_result no_faults 1 None (Some 1) None None example_manager))))))) = [1, 1]"
  unfolding add_result_def no_faults_def action_defs insert_result_def
  by (simp add: Let_def example_manager_def example_database_def next_rowid_def)

section \<open>Season bounds\<close>

lemma str_nat_no_dash: "CHR ''-'' \<notin> set (str_nat n)" "CHR '' '' \<notin> set (str_nat n)"
proof -
  have "\<not> is_decimal (CHR ''-'')" "\<not> is_decimal (CHR '' '')"
    by (simp_all add: is_decimal_def code_point_def)
  then show "CHR ''-'' \<notin> set (str_nat n)" "CHR '' '' \<notin> set (str_nat n)"
    using str_nat_decimal[of n] by auto
qed

lemma str_int_no_space: "CHR '' '' \<notin> set (str_int i)"
  by (simp add: str_int_def str_nat_no_dash)

lemma py_contains_subset: "py_contains sub s \<Longrightarrow> set sub \<subseteq> set s"
proof (induction s)
  case Nil then show ?case by simp
next
  case (Cons c cs)
  from Cons.prems have "take (length sub) (c # cs) = sub \<or> py_contains sub cs" by simp
  then show ?case
  proof
    assume "take (length sub) (c # cs) = sub"
    then have "set sub \<subseteq> set (c # cs)" by (metis set_take_subset)
    then show ?thesis .
  next
    assume "py_contains sub cs"
    then show ?thesis using Cons.IH by auto
  qed
qed

lemma py_contains_prefix: "py_contains sub (sub @ b)"
proof (cases "sub @ b")
  case Nil
  then show ?thesis by simp
next
  case (Cons c cs)
  have "take (length sub) (sub @ b) = sub" by simp
  then have "take (length sub) (c # cs) = sub" using Cons by simp
  then show ?thesis using Cons by simp
qed

lemma py_contains_append: "py_contains sub (a @ sub @ b)"
  by (induction a) (simp_all add: py_contains_prefix)

lemma before_first_append:
  "sep \<noteq> [] \<Longrightarrow> hd sep \<notin> set a \<Longrightarrow> before_first sep (a @ sep @ b) = a"
proof (induction a)
  case Nil
  then show ?case by (cases sep) auto
next
  case (Cons c a)
  have "take (length sep) (c # a @ sep @ b) \<noteq> sep"
  proof
    assume "take (length sep) (c # a @ sep @ b) = sep"
    then have "hd sep = c" using Cons.prems(1) by (cases sep) auto
    then show False using Cons.prems(2) by simp
  qed
  then show ?case using Cons by simp
qed

lemma season_year_of_display:
  assumes "is_current s \<or> 0 \<le> start_year s"
  shows "season_year_of (display_name s) = (str_int (start_year s), is_current s)"
proof (cases "end_year s")
  case None
  have c: "py_contains '' - current'' (str_int (start_year s) @ '' - current'')"
    using py_contains_append[of "'' - current''" "str_int (start_year s)" "[]"] by simp
  have b: "before_first '' - current'' (str_int (start_year s) @ '' - current'') = str_int (start_year s)"
    using before_first_append[of "'' - current''" "str_int (start_year s)" "[]"] str_int_no_space
    by simp
  show ?thesis using None c b by (simp add: season_year_of_def display_name_def is_current_def)
next
  case (Some e)
  then have nn: "0 \<le> start_year s" using assms by (simp add: is_current_def)
  have "CHR '' '' \<notin> set (display_name s)"
    using Some str_int_no_space by (simp add: display_name_def)
  then have nc: "\<not> py_contains '' - current'' (display_name s)"
    using py_contains_subset by fastforce
  have si: "str_int (start_year s) = str_nat (nat (start_year s))" using nn by (simp add: str_int_def)
  have "split_on (CHR ''-'') (str_nat (nat (start_year s)) @ CHR ''-'' # str_int e)
      = str_nat (nat (start_year s)) # split_on (CHR ''-'') (str_int e)"
    by (rule split_on_append) (rule str_nat_no_dash)
  then show ?thesis
    using Some nc by (simp add: season_year_of_def display_name_def si is_current_def)
qed

lemma season_end_of_display:
  assumes "is_current s \<or> 0 \<le> start_year s"
  shows "season_end_of (str_int (start_year s)) (is_current s)
     = Inr (if is_current s then None else Some (str_int (start_year s + 1) @ ''-08-31''))"
proof (cases "is_current s")
  case True
  then show ?thesis by (simp add: season_end_of_def)
next
  case False
  then have nn: "0 \<le> start_year s" using assms by simp
  have "py_int (str_nat (nat (start_year s))) = Inr (digits_value (str_nat (nat (start_year s))))"
    by (rule py_int_decimal) (simp_all add: str_nat_nonempty str_nat_decimal)
  then have "py_int (str_int (start_year s)) = Inr (start_year s)"
    using nn by (simp add: str_int_def digits_value_str_nat)
  then show ?thesis using False by (simp add: season_end_of_def ebind_def)
qed

lemma update_participation_insert:
  assumes sy: "season_year_of season_display = (season_year, is_cur)"
    and se: "season_end_of season_year is_cur = Inr end_d"
    and none: "select_participation sid season_year (current (conn m)) = None"
    and fk: "sid \<in> set (map school_id (schools (current (conn m))))"
  shows "update_school_participation_by_id other no_faults sid team_type participating
           season_display m =
     (let db = current (conn m);
          pid = next_rowid (map participation_id (school_participations db))
                  (sqlite_sequence db ''school_participations'');
          db' = db\<lparr>school_participations := school_participations db @
                        [\<lparr>participation_id = pid, participation_school_id = sid,
                          start_date = Text (season_year @ ''-09-01''),
                          end_date = (case end_d of None \<Rightarrow> Null | Some d \<Rightarrow> Text d),
                          openweight_women = (if team_type = ''openweight_women'' then participating else False),
                          heavyweight_men = (if team_type = ''heavyweight_men'' then participating else False),
                          lightweight_men = (if team_type = ''lightweight_men'' then participating else False),
                          lightweight_women = (if team_type = ''lightweight_women'' then participating else False)\<rparr>],
                    sqlite_sequence := (sqlite_sequence db)(''school_participations'' := pid)\<rparr>
      in (Inr True, m\<lparr>conn := \<lparr>committed = db', current = db', in_transaction = False\<rparr>\<rparr>))"
  using none fk
  by (simp add: update_school_participation_by_id_def sy se no_faults_def action_defs query_def
      insert_participation_def Let_def)

text \<open>
  The row that the insert branch creates for a finite season with a non-negative start
  year always ends on the 31 August of the year after the start year, whatever the end
  year of the season is.
\<close>

lemma update_participation_insert_finite:
  assumes "end_year s = Some e" "0 \<le> start_year s"
    and "select_participation sid (str_int (start_year s)) (current (conn m)) = None"
    and "sid \<in> set (map school_id (schools (current (conn m))))"
  shows "fst (update_school_participation_by_id other no_faults sid team_type participating
           (display_name s) m) = Inr True
       \<and> map end_date (school_participations (current (conn (snd
            (update_school_participation_by_id other no_faults sid team_type participating
               (display_name s) m)))))
         = map end_date (school_participations (current (conn m)))
             @ [Text (str_int (start_year s + 1) @ ''-08-31'')]"
proof -
  have h: "is_current s \<or> 0 \<le> start_year s" using assms(2) by simp
  have nc: "\<not> is_current s" using assms(1) by (simp add: is_current_def)
  have sy: "season_year_of (display_name s) = (str_int (start_year s), False)"
    using season_year_of_display[OF h] nc by simp
  have se: "season_end_of (str_int (start_year s)) False
      = Inr (Some (str_int (start_year s + 1) @ ''-08-31''))"
    using season_end_of_display[OF h] nc by simp
  show ?thesis
    unfolding update_participation_insert[OF sy se assms(3,4)] Let_def by simp
qed

lemma str_int_examples:
  "str_int 2020 = ''2020''" "str_int 2021 = ''2021''" "str_int 2023 = ''2023''"
  by (simp_all add: str_int_def str_nat.simps digit_char_def)

text \<open>
  C5. \<open>update_school_participation_by_id\<close> evaluated on the display name of the finite
  season 2020-2023, for a school without a participation row of 2020: the season's own
  bounds are 2020-09-01 and 2023-08-31, the row created for it runs from 2020-09-01 to
  2021-08-31.
\<close>

theorem multi_year_season_stored_end:
  "season_start_date \<lparr>start_year = 2020, end_year = Some 2023\<rparr> = ''2020-09-01''
   \<and> season_end_date \<lparr>start_year = 2020, end_year = Some 2023\<rparr> = Some ''2023-08-31''
   \<and> display_name \<lparr>start_year = 2020, end_year = Some 2023\<rparr> = ''2020-2023''
   \<and> fst (update_school_participation_by_id other no_faults 1 ''heavyweight_men'' True
            ''2020-2023'' example_manager) = Inr True
   \<and> map start_date (school_participations (current (conn (snd
        (update_school_participation_by_id other no_faults 1 ''heavyweight_men'' True
           ''2020-2023'' example_manager))))) = [Text ''2020-09-01'']
   \<and> map end_date (school_participations (current (conn (snd
        (update_school_participation_by_id other no_faults 1 ''heavyweight_men'' True
           ''2020-2023'' example_manager))))) = [Text ''2021-08-31'']"
proof -
  define s where "s = \<lparr>start_year = 2020, end_year = Some 2023\<rparr>"
  have d: "display_name s = ''2020-2023''"
    by (simp add: s_def display_name_def str_int_examples)
  have h: "is_current s \<or> 0 \<le> start_year s" by (simp add: s_def)
  have sy: "season_year_of ''2020-2023'' = (''2020'', False)"
    using season_year_of_display[OF h] unfolding d
    by (simp add: s_def str_int_examples is_current_def)
  have se: "season_end_of ''2020'' False = Inr (Some ''2021-08-31'')"
    using season_end_of_display[OF h]
    by (simp add: s_def str_int_examples is_current_def)
  have n: "select_participation 1 ''2020'' (current (conn example_manager)) = None"
    by (simp add: select_participation_def example_manager_def example_database_def)
  have f: "1 \<in> set (map school_id (schools (current (conn example_manager))))"
    by (simp add: example_manager_def example_database_def)
  have e: "school_participations (current (conn example_manager)) = []"
    by (simp add: example_manager_def example_database_def)
  have "season_end_date s = Some ''2023-08-31''" "season_start_date s = ''2020-09-01''"
    by (simp_all add: s_def season_end_date_def season_start_date_def str_int_examples)
  then show ?thesis
    unfolding update_participation_insert[OF sy se n f] Let_def
    using d e by (simp add: s_def)
qed

section \<open>CRR names identify schools\<close>


































































end
